theory Spec2Isabelle
  imports Main
begin

section \<open>Lines and the errors of the extraction stage\<close>

text \<open>
  Modelled from the spec: the class \<open>Line\<close> of
  \<open>post_processing/info_extraction/utils.py\<close> is built from a row of the table
  \<open>PageLines\<close> and is not part of the sources at hand. The record carries the fields the
  extractors read: \<open>id\<close>, \<open>page_id\<close>, \<open>num\<close>, \<open>indent\<close>, \<open>text\<close> (the
  column \<open>line_text\<close>), the gold \<open>label\<close> and the two predicted labels. \<open>indent\<close> and
  \<open>num\<close> are the values that \<open>int(...)\<close> yields in \<open>within_threshold\<close>. A
  \<open>Line\<close> object is truthy and is a dictionary key by identity; rows have distinct
  ids, so equality of records stands for identity of objects.
\<close>

record Line =
  line_id :: int
  page_id :: int
  num :: int
  indent :: int
  line_text :: string
  label :: string
  svm_prediction :: string
  dl_prediction :: string

datatype error =
    AttributeError
  | TypeError
  | IndexError
  | StoreWriteFailure
  | GraphWriteFailure
  | ProviderFailure

section \<open>BlockExtractor\<close>

text \<open>
  The cursor of \<open>BlockExtractor\<close> reads two tables: \<open>ConferencePages\<close> with the
  columns \<open>(id, conf_id)\<close>, and \<open>PageLines\<close>. A table is the list of its rows in
  storage order.
\<close>

record cursor =
  ConferencePages :: "(int \<times> int) list"
  PageLines :: "Line list"

text \<open>
  \<open>SELECT * FROM PageLines WHERE page_id=? AND line_text!='' AND (f != 'Undefined')
  ORDER BY id\<close>, for the label column \<open>f\<close>.
\<close>

definition select_lines :: "cursor \<Rightarrow> (Line \<Rightarrow> string) \<Rightarrow> int \<Rightarrow> Line list" where
  "select_lines cur f pid =
     sort_key line_id
       (filter (\<lambda>l. page_id l = pid \<and> line_text l \<noteq> [] \<and> f l \<noteq> ''Undefined'')
          (PageLines cur))"

text \<open>\<open>SELECT id FROM ConferencePages WHERE conf_id=...\<close>, then \<open>p[0]\<close> of each row.\<close>

definition select_page_ids :: "cursor \<Rightarrow> int \<Rightarrow> int list" where
  "select_page_ids cur conf_id =
     map fst (filter (\<lambda>p. snd p = conf_id) (ConferencePages cur))"

text \<open>
  The loop over the pages of \<open>get_relevant_lines\<close>. The first \<open>if\<close> (for
  \<open>svm_prediction\<close>) is a statement of its own; the chain
  \<open>if dl_prediction / elif gold / else: return []\<close> follows it, and its \<open>else\<close> leaves
  the whole function with the empty list.
\<close>

fun get_relevant_lines_loop ::
  "cursor \<Rightarrow> string \<Rightarrow> int list \<Rightarrow> Line list \<Rightarrow> Line list" where
  "get_relevant_lines_loop cur extract_type [] all_lines = all_lines"
| "get_relevant_lines_loop cur extract_type (pid # page_ids) all_lines =
     (let lines0 = (if extract_type = ''svm_prediction''
                    then select_lines cur svm_prediction pid else [])
      in if extract_type = ''dl_prediction''
         then get_relevant_lines_loop cur extract_type page_ids
                (all_lines @ select_lines cur dl_prediction pid)
         else if extract_type = ''gold''
         then get_relevant_lines_loop cur extract_type page_ids
                (all_lines @ select_lines cur label pid)
         else [])"

definition get_relevant_lines :: "cursor \<Rightarrow> string \<Rightarrow> int \<Rightarrow> Line list" where
  "get_relevant_lines cur extract_type conf_id =
     get_relevant_lines_loop cur extract_type (select_page_ids cur conf_id) []"

text \<open>
  The label that is authoritative for an extraction type:
  \<open>line.label if gold else line.svm_prediction if svm_prediction else line.dl_prediction\<close>.
\<close>

definition active_label :: "string \<Rightarrow> Line \<Rightarrow> string" where
  "active_label extract_type line =
     (if extract_type = ''gold'' then label line
      else if extract_type = ''svm_prediction'' then svm_prediction line
      else dl_prediction line)"

definition within_threshold :: "int \<Rightarrow> int \<Rightarrow> Line \<Rightarrow> Line \<Rightarrow> Line \<Rightarrow> bool" where
  "within_threshold indent_diff_thresh lnum_diff_thresh line prev_line rl_line =
     (let indent_thresh = \<bar>indent line - indent rl_line\<bar> < indent_diff_thresh;
          lnum_thresh = \<bar>num line - num prev_line\<bar> < lnum_diff_thresh
      in indent_thresh \<and> lnum_thresh)"

text \<open>
  \<open>mapping\<close> is a \<open>defaultdict(list)\<close>: a dictionary in insertion order, here an
  association list with distinct keys. Reading a missing key inserts it with the empty
  list; \<open>dd_set\<close> is the assignment \<open>mapping[k] = v\<close>.
\<close>

type_synonym blocks = "(Line \<times> Line list) list"

definition dd_get :: "blocks \<Rightarrow> Line \<Rightarrow> blocks \<times> Line list" where
  "dd_get m k = (case map_of m k of None \<Rightarrow> (m @ [(k, [])], []) | Some v \<Rightarrow> (m, v))"

fun dd_set :: "blocks \<Rightarrow> Line \<Rightarrow> Line list \<Rightarrow> blocks" where
  "dd_set [] k v = [(k, v)]"
| "dd_set ((k', v') # m) k v = (if k' = k then (k, v) # m else (k', v') # dd_set m k v)"

text \<open>
  The loop of \<open>get_relevant_blocks\<close>, with its three variables \<open>mapping\<close>,
  \<open>role_label\<close> and \<open>prev_labelled\<close>. Reading \<open>prev_line.num\<close> of \<open>None\<close> would
  raise \<open>AttributeError\<close>.
\<close>

fun get_relevant_blocks_loop ::
  "string \<Rightarrow> int \<Rightarrow> int \<Rightarrow> Line list \<Rightarrow> blocks \<Rightarrow> Line option \<Rightarrow> Line option
     \<Rightarrow> error + blocks" where
  "get_relevant_blocks_loop et it lt [] mapping role_label prev_labelled = Inr mapping"
| "get_relevant_blocks_loop et it lt (line # rest) mapping role_label prev_labelled =
     (if active_label et line = ''Role-Label''
      then get_relevant_blocks_loop et it lt rest mapping (Some line) (Some line)
      else (case role_label of
              None \<Rightarrow> get_relevant_blocks_loop et it lt rest mapping role_label prev_labelled
            | Some rl \<Rightarrow>
                (case prev_labelled of
                   None \<Rightarrow> Inl AttributeError
                 | Some pl \<Rightarrow>
                     if within_threshold it lt line pl rl
                     then (let (m1, v) = dd_get mapping rl;
                               m2 = (if v \<noteq> [] then dd_set m1 rl (v @ [line])
                                     else dd_set m1 rl [line])
                           in get_relevant_blocks_loop et it lt rest m2 role_label (Some line))
                     else get_relevant_blocks_loop et it lt rest mapping
                            role_label prev_labelled)))"

definition get_relevant_blocks ::
  "cursor \<Rightarrow> string \<Rightarrow> int \<Rightarrow> int \<Rightarrow> int \<Rightarrow> error + blocks" where
  "get_relevant_blocks cur extract_type conf_id indent_diff_thresh lnum_diff_thresh =
     get_relevant_blocks_loop extract_type indent_diff_thresh lnum_diff_thresh
       (get_relevant_lines cur extract_type conf_id) [] None None"

section \<open>LineInfoExtractor\<close>

subsection \<open>Entity extraction from a line\<close>

text \<open>
  \<open>text.split(sep)\<close> for a separator of one character: the pieces between the
  occurrences of the separator, empty pieces kept, never the empty list.
\<close>

fun split_where :: "('a \<Rightarrow> bool) \<Rightarrow> 'a list \<Rightarrow> 'a list list" where
  "split_where p [] = [[]]"
| "split_where p (x # xs) =
     (if p x then [] # split_where p xs
      else (case split_where p xs of
              [] \<Rightarrow> [[x]]
            | piece # pieces \<Rightarrow> (x # piece) # pieces))"

definition py_split :: "'a \<Rightarrow> 'a list \<Rightarrow> 'a list list" where
  "py_split sep s = split_where (\<lambda>x. x = sep) s"

text \<open>
  The sequence tagger is a capability of the extractor (\<open>self.flair_tagger\<close>): for
  the text of one fragment it yields the spans of \<open>get_spans('ner')\<close> in order, each as
  \<open>(entity.text, entity.tag)\<close>.
\<close>

type_synonym tagger = "string \<Rightarrow> (string \<times> string) list"

text \<open>
  \<open>line_parts\<close> is a \<open>defaultdict(lambda: None)\<close> from tag to text; every span
  assigns \<open>line_parts[entity.tag] = entity.text\<close>.
\<close>

definition get_line_parts_flair :: "tagger \<Rightarrow> Line \<Rightarrow> (string \<rightharpoonup> string)" where
  "get_line_parts_flair flair_tagger line =
     fold (\<lambda>part line_parts.
             fold (\<lambda>entity lp. lp(snd entity \<mapsto> fst entity)) (flair_tagger part) line_parts)
          (py_split CHR '','' (line_text line)) Map.empty"

text \<open>The truth value of \<open>line_parts[tag]\<close>: \<open>None\<close> and the empty string are false.\<close>

definition truthy :: "string option \<Rightarrow> bool" where
  "truthy v = (case v of None \<Rightarrow> False | Some t \<Rightarrow> t \<noteq> [])"

subsection \<open>The two stores\<close>

text \<open>
  The statements that \<open>LineInfoExtractor\<close> sends to the relational cursor, and the
  transaction functions of \<open>TxFn\<close> that it sends to the graph session, each with its
  arguments.
\<close>

datatype stmt =
    InsertPerson string
  | SelectPersonId string
  | InsertOrganization string
  | SelectOrganizationId string
  | InsertPersonOrganization int int
  | InsertPersonRole string int int
  | UpdateOrganizationLocation string int

datatype tx =
    TxFn_create_person string
  | TxFn_create_organization string
  | TxFn_create_conference string
  | TxFn_create_affiliation_rel int int
  | TxFn_create_role_rel int string int
  | TxFn_update_org_loc int string

datatype session_state = Open | Closed

text \<open>
  The extractor object together with the two stores behind it. The tables hold their rows
  in storage order: \<open>Persons (id, name)\<close>, \<open>Organizations (id, name, location)\<close>,
  \<open>PersonRole (role_type, conf_id, person_id)\<close> and
  \<open>PersonOrganization (org_id, person_id)\<close>. \<open>executed\<close> is the trace of the
  statements that the cursor has run, \<open>faulty\<close> the statements on which
  \<open>cur.execute\<close> raises. \<open>graph_log\<close> is the trace of the transactions written to the
  graph store, \<open>graph_next\<close> the next node identifier it hands out, \<open>graph_faulty\<close>
  the transactions on which \<open>write_transaction\<close> raises. \<open>sql_conf_id\<close> and
  \<open>n4j_conf_id\<close> are attributes that exist only once \<open>process_conference\<close> has set
  them. \<open>extraction_type\<close> holds \<open>self.extract_type\<close>.
\<close>

record LineInfoExtractor =
  Persons :: "(int \<times> string) list"
  Organizations :: "(int \<times> string \<times> string option) list"
  PersonRole :: "(string \<times> int \<times> int) list"
  PersonOrganization :: "(int \<times> int) list"
  executed :: "stmt list"
  faulty :: "stmt list"
  extraction_type :: string
  driver :: bool
  session :: "session_state option"
  graph_next :: int
  graph_log :: "tx list"
  graph_faulty :: "tx list"
  sql_conf_id :: "int option"
  n4j_conf_id :: "int option"

text \<open>
  An exception leaves the mutations made so far in place, so a failure carries the state
  at the moment of the raise.
\<close>

type_synonym 'a result = "(error \<times> LineInfoExtractor) + ('a \<times> LineInfoExtractor)"

text \<open>
  Modelled from the spec: the table declarations are not part of the sources at hand. The
  name of a person or organization is a unique key compared as an exact string, the
  relation tables suppress duplicate rows (insert-if-absent), and a new row takes the
  identifier one above the largest in the table.
\<close>

definition next_id :: "int list \<Rightarrow> int" where
  "next_id ids = fold max ids 0 + 1"

definition insert_if_absent :: "'a \<Rightarrow> 'a list \<Rightarrow> 'a list" where
  "insert_if_absent row rows = (if row \<in> set rows then rows else rows @ [row])"

definition insert_person_row :: "string \<Rightarrow> (int \<times> string) list \<Rightarrow> (int \<times> string) list" where
  "insert_person_row name rows =
     (if name \<in> snd ` set rows then rows else rows @ [(next_id (map fst rows), name)])"

definition insert_organization_row ::
  "string \<Rightarrow> (int \<times> string \<times> string option) list \<Rightarrow> (int \<times> string \<times> string option) list" where
  "insert_organization_row name rows =
     (if name \<in> (\<lambda>r. fst (snd r)) ` set rows then rows
      else rows @ [(next_id (map fst rows), name, None)])"

definition apply_stmt :: "LineInfoExtractor \<Rightarrow> stmt \<Rightarrow> LineInfoExtractor" where
  "apply_stmt s st =
     (case st of
        InsertPerson name \<Rightarrow> s\<lparr>Persons := insert_person_row name (Persons s)\<rparr>
      | SelectPersonId name \<Rightarrow> s
      | InsertOrganization name \<Rightarrow>
          s\<lparr>Organizations := insert_organization_row name (Organizations s)\<rparr>
      | SelectOrganizationId name \<Rightarrow> s
      | InsertPersonOrganization org_id person_id \<Rightarrow>
          s\<lparr>PersonOrganization := insert_if_absent (org_id, person_id) (PersonOrganization s)\<rparr>
      | InsertPersonRole role_type conf_id person_id \<Rightarrow>
          s\<lparr>PersonRole := insert_if_absent (role_type, conf_id, person_id) (PersonRole s)\<rparr>
      | UpdateOrganizationLocation loc org_id \<Rightarrow>
          s\<lparr>Organizations :=
               map (\<lambda>r. if fst r = org_id then (fst r, fst (snd r), Some loc) else r)
                 (Organizations s)\<rparr>)"

text \<open>\<open>self.cur.execute(...)\<close>: raises on a faulty statement, else runs it.\<close>

definition execute :: "LineInfoExtractor \<Rightarrow> stmt \<Rightarrow> unit result" where
  "execute s st =
     (if st \<in> set (faulty s) then Inl (StoreWriteFailure, s)
      else Inr ((), apply_stmt (s\<lparr>executed := executed s @ [st]\<rparr>) st))"

text \<open>\<open>fetchone()\<close> of a select by name: the first matching row, or \<open>None\<close>.\<close>

definition fetchone_person :: "LineInfoExtractor \<Rightarrow> string \<Rightarrow> (int \<times> string) option" where
  "fetchone_person s name = find (\<lambda>r. snd r = name) (Persons s)"

definition fetchone_organization ::
  "LineInfoExtractor \<Rightarrow> string \<Rightarrow> (int \<times> string \<times> string option) option" where
  "fetchone_organization s name = find (\<lambda>r. fst (snd r) = name) (Organizations s)"

text \<open>
  Modelled from the spec: \<open>TxFn\<close> of \<open>post_processing/info_extraction/utils.py\<close> is not
  part of the sources at hand. A transaction that creates a node (person, organization,
  conference) returns the identifier of the node, taken from \<open>graph_next\<close>; the others
  return nothing of use. Writing needs an open session.
\<close>

definition creates_node :: "tx \<Rightarrow> bool" where
  "creates_node t =
     (case t of
        TxFn_create_person _ \<Rightarrow> True
      | TxFn_create_organization _ \<Rightarrow> True
      | TxFn_create_conference _ \<Rightarrow> True
      | _ \<Rightarrow> False)"

definition write_transaction :: "LineInfoExtractor \<Rightarrow> tx \<Rightarrow> int result" where
  "write_transaction s t =
     (if session s \<noteq> Some Open \<or> t \<in> set (graph_faulty s) then Inl (GraphWriteFailure, s)
      else Inr (graph_next s,
                s\<lparr>graph_log := graph_log s @ [t],
                  graph_next := (if creates_node t then graph_next s + 1 else graph_next s)\<rparr>))"

subsection \<open>The writers\<close>

text \<open>Every writer returns the pair \<open>(graph id, relational id)\<close>, the graph id first.\<close>

definition add_person :: "LineInfoExtractor \<Rightarrow> string \<Rightarrow> (int \<times> int) result" where
  "add_person s person =
     (case execute s (InsertPerson person) of
        Inl e \<Rightarrow> Inl e
      | Inr (_, s1) \<Rightarrow>
          (case execute s1 (SelectPersonId person) of
             Inl e \<Rightarrow> Inl e
           | Inr (_, s2) \<Rightarrow>
               (case fetchone_person s2 person of
                  None \<Rightarrow> Inl (TypeError, s2)
                | Some row \<Rightarrow>
                    (let sql_pid = fst row
                     in if session s2 \<noteq> None
                        then (case write_transaction s2 (TxFn_create_person person) of
                                Inl e \<Rightarrow> Inl e
                              | Inr (n4j_pid, s3) \<Rightarrow> Inr ((n4j_pid, sql_pid), s3))
                        else Inr ((- 1, sql_pid), s2)))))"

definition add_organization :: "LineInfoExtractor \<Rightarrow> string \<Rightarrow> (int \<times> int) result" where
  "add_organization s org =
     (case execute s (InsertOrganization org) of
        Inl e \<Rightarrow> Inl e
      | Inr (_, s1) \<Rightarrow>
          (case execute s1 (SelectOrganizationId org) of
             Inl e \<Rightarrow> Inl e
           | Inr (_, s2) \<Rightarrow>
               (case fetchone_organization s2 org of
                  None \<Rightarrow> Inl (TypeError, s2)
                | Some row \<Rightarrow>
                    (let sql_oid = fst row
                     in if session s2 \<noteq> None
                        then (case write_transaction s2 (TxFn_create_organization org) of
                                Inl e \<Rightarrow> Inl e
                              | Inr (n4j_oid, s3) \<Rightarrow> Inr ((n4j_oid, sql_oid), s3))
                        else Inr ((- 1, sql_oid), s2)))))"

definition add_conference :: "LineInfoExtractor \<Rightarrow> string \<Rightarrow> int result" where
  "add_conference s n4j_attrs = write_transaction s (TxFn_create_conference n4j_attrs)"

definition add_affiliation_rel ::
  "LineInfoExtractor \<Rightarrow> int \<times> int \<Rightarrow> int \<times> int \<Rightarrow> unit result" where
  "add_affiliation_rel s person_ids org_ids =
     (case execute s (InsertPersonOrganization (snd org_ids) (snd person_ids)) of
        Inl e \<Rightarrow> Inl e
      | Inr (_, s1) \<Rightarrow>
          if session s1 \<noteq> None
          then (case write_transaction s1
                       (TxFn_create_affiliation_rel (fst person_ids) (snd org_ids)) of
                  Inl e \<Rightarrow> Inl e
                | Inr (_, s2) \<Rightarrow> Inr ((), s2))
          else Inr ((), s1))"

definition add_role_rel :: "LineInfoExtractor \<Rightarrow> int \<times> int \<Rightarrow> string \<Rightarrow> unit result" where
  "add_role_rel s person_ids role =
     (case sql_conf_id s of
        None \<Rightarrow> Inl (AttributeError, s)
      | Some conf \<Rightarrow>
          (case execute s (InsertPersonRole role conf (snd person_ids)) of
             Inl e \<Rightarrow> Inl e
           | Inr (_, s1) \<Rightarrow>
               if session s1 \<noteq> None
               then (case n4j_conf_id s1 of
                       None \<Rightarrow> Inl (AttributeError, s1)
                     | Some n4j_conf \<Rightarrow>
                         (case write_transaction s1
                                 (TxFn_create_role_rel (fst person_ids) role n4j_conf) of
                            Inl e \<Rightarrow> Inl e
                          | Inr (_, s2) \<Rightarrow> Inr ((), s2)))
               else Inr ((), s1)))"

definition update_org_loc :: "LineInfoExtractor \<Rightarrow> int \<times> int \<Rightarrow> string \<Rightarrow> unit result" where
  "update_org_loc s org_ids loc =
     (case execute s (UpdateOrganizationLocation loc (snd org_ids)) of
        Inl e \<Rightarrow> Inl e
      | Inr (_, s1) \<Rightarrow>
          if session s1 \<noteq> None
          then (case write_transaction s1 (TxFn_update_org_loc (fst org_ids) loc) of
                  Inl e \<Rightarrow> Inl e
                | Inr (_, s2) \<Rightarrow> Inr ((), s2))
          else Inr ((), s1))"

subsection \<open>Processing a block and a conference\<close>

definition process_complex :: "tagger \<Rightarrow> LineInfoExtractor \<Rightarrow> Line \<Rightarrow> Line \<Rightarrow> unit result" where
  "process_complex flair_tagger s line role_label =
     (let line_parts = get_line_parts_flair flair_tagger line;
          step1 = (if truthy (line_parts ''PER'')
                   then (case add_person s (the (line_parts ''PER'')) of
                           Inl e \<Rightarrow> Inl e
                         | Inr (person_ids, s1) \<Rightarrow>
                             (case add_role_rel s1 person_ids (line_text role_label) of
                                Inl e \<Rightarrow> Inl e
                              | Inr (_, s2) \<Rightarrow> Inr (Some person_ids, s2)))
                   else Inr (None, s))
      in case step1 of
           Inl e \<Rightarrow> Inl e
         | Inr (person_ids, s2) \<Rightarrow>
             (let step2 = (if truthy (line_parts ''ORG'')
                           then (case add_organization s2 (the (line_parts ''ORG'')) of
                                   Inl e \<Rightarrow> Inl e
                                 | Inr (org_ids, s3) \<Rightarrow>
                                     if truthy (line_parts ''LOC'')
                                     then (case update_org_loc s3 org_ids
                                                  (the (line_parts ''LOC'')) of
                                             Inl e \<Rightarrow> Inl e
                                           | Inr (_, s4) \<Rightarrow> Inr (Some org_ids, s4))
                                     else Inr (Some org_ids, s3))
                           else Inr (None, s2))
              in case step2 of
                   Inl e \<Rightarrow> Inl e
                 | Inr (org_ids, s4) \<Rightarrow>
                     (case (person_ids, org_ids) of
                        (Some pids, Some oids) \<Rightarrow> add_affiliation_rel s4 pids oids
                      | _ \<Rightarrow> Inr ((), s4))))"

definition process_pair ::
  "tagger \<Rightarrow> LineInfoExtractor \<Rightarrow> Line \<Rightarrow> Line \<Rightarrow> Line \<Rightarrow> unit result" where
  "process_pair flair_tagger s person affiliation role_label =
     (case add_person s (line_text person) of
        Inl e \<Rightarrow> Inl e
      | Inr (person_ids, s1) \<Rightarrow>
          (case add_role_rel s1 person_ids (line_text role_label) of
             Inl e \<Rightarrow> Inl e
           | Inr (_, s2) \<Rightarrow>
               (let line_parts = get_line_parts_flair flair_tagger affiliation
                in if truthy (line_parts ''ORG'')
                   then (case add_organization s2 (the (line_parts ''ORG'')) of
                           Inl e \<Rightarrow> Inl e
                         | Inr (org_ids, s3) \<Rightarrow>
                             (case (if truthy (line_parts ''LOC'')
                                    then update_org_loc s3 org_ids (the (line_parts ''LOC''))
                                    else Inr ((), s3)) of
                                Inl e \<Rightarrow> Inl e
                              | Inr (_, s4) \<Rightarrow> add_affiliation_rel s4 person_ids org_ids))
                   else Inr ((), s2))))"

text \<open>
  The loop of \<open>process_block\<close> with its two pending lines \<open>u_person\<close> and
  \<open>u_aff\<close>; it returns them as they stand after the last line. (\<open>cur_idx\<close> and
  \<open>prev_line\<close> are written and never read.)
\<close>

fun process_block_loop ::
  "tagger \<Rightarrow> Line \<Rightarrow> Line list \<Rightarrow> Line option \<Rightarrow> Line option \<Rightarrow> LineInfoExtractor
     \<Rightarrow> (Line option \<times> Line option) result" where
  "process_block_loop tg role_label [] u_person u_aff s = Inr ((u_person, u_aff), s)"
| "process_block_loop tg role_label (cur_line # rest) u_person u_aff s =
     (let lbl = active_label (extraction_type s) cur_line
      in if lbl = ''Complex''
         then (case process_complex tg s cur_line role_label of
                 Inl e \<Rightarrow> Inl e
               | Inr (_, s1) \<Rightarrow> process_block_loop tg role_label rest u_person u_aff s1)
         else if lbl = ''Person''
         then (case u_aff of
                 Some aff \<Rightarrow>
                   (case process_pair tg s cur_line aff role_label of
                      Inl e \<Rightarrow> Inl e
                    | Inr (_, s1) \<Rightarrow> process_block_loop tg role_label rest None None s1)
               | None \<Rightarrow> process_block_loop tg role_label rest (Some cur_line) u_aff s)
         else if lbl = ''Affiliation''
         then (case u_person of
                 Some per \<Rightarrow>
                   (case process_pair tg s per cur_line role_label of
                      Inl e \<Rightarrow> Inl e
                    | Inr (_, s1) \<Rightarrow> process_block_loop tg role_label rest None None s1)
               | None \<Rightarrow> process_block_loop tg role_label rest u_person (Some cur_line) s)
         else process_block_loop tg role_label rest u_person u_aff s)"

definition process_block :: "tagger \<Rightarrow> LineInfoExtractor \<Rightarrow> Line \<Rightarrow> Line list \<Rightarrow> unit result" where
  "process_block tg s role_label content_lines =
     (case process_block_loop tg role_label content_lines None None s of
        Inl e \<Rightarrow> Inl e
      | Inr (_, s1) \<Rightarrow> Inr ((), s1))"

text \<open>
  Modelled from the spec: the class \<open>Conference\<close> is not part of the sources at hand;
  \<open>process_conference\<close> reads its \<open>id\<close>, its \<open>n4j_attrs\<close> and its \<open>blocks\<close>, the
  mapping that \<open>get_relevant_blocks\<close> returned.
\<close>

record Conference =
  conference_id :: int
  n4j_attrs :: string
  conference_blocks :: blocks

fun process_blocks :: "tagger \<Rightarrow> LineInfoExtractor \<Rightarrow> blocks \<Rightarrow> unit result" where
  "process_blocks tg s [] = Inr ((), s)"
| "process_blocks tg s ((rl_id, content_ids) # rest) =
     (case process_block tg s rl_id content_ids of
        Inl e \<Rightarrow> Inl e
      | Inr (_, s1) \<Rightarrow> process_blocks tg s1 rest)"

text \<open>
  \<open>process_conference\<close> in its three parts. \<open>begin_conference\<close> is everything before
  the loop: with a driver, \<open>driver.session()\<close> opens a session and the conference node is
  created; then \<open>sql_conf_id\<close> is set. After the loop \<open>session.close()\<close> closes the
  session, so that the assertion \<open>session.closed()\<close> that follows holds.
\<close>

definition begin_conference :: "LineInfoExtractor \<Rightarrow> Conference \<Rightarrow> unit result" where
  "begin_conference s conference =
     (case (if driver s
            then (case add_conference (s\<lparr>session := Some Open\<rparr>) (n4j_attrs conference) of
                    Inl e \<Rightarrow> Inl e
                  | Inr (cid, s1) \<Rightarrow> Inr ((), s1\<lparr>n4j_conf_id := Some cid\<rparr>))
            else Inr ((), s)) of
        Inl e \<Rightarrow> Inl e
      | Inr (_, s1) \<Rightarrow> Inr ((), s1\<lparr>sql_conf_id := Some (conference_id conference)\<rparr>))"

definition process_conference :: "tagger \<Rightarrow> LineInfoExtractor \<Rightarrow> Conference \<Rightarrow> unit result" where
  "process_conference tg s conference =
     (case begin_conference s conference of
        Inl e \<Rightarrow> Inl e
      | Inr (_, s1) \<Rightarrow>
          (case process_blocks tg s1 (conference_blocks conference) of
             Inl e \<Rightarrow> Inl e
           | Inr (_, s2) \<Rightarrow>
               if driver s2 then Inr ((), s2\<lparr>session := Some Closed\<rparr>) else Inr ((), s2)))"

section \<open>API: name similarity and candidate retrieval\<close>

subsection \<open>similarity\<close>

text \<open>
  A Python \<open>str\<close> is a sequence of Unicode code points; a name is the list of its code
  points, and \<open>str\<close> turns a literal of ASCII characters into that list.
\<close>

type_synonym codepoint = nat

definition str :: "string \<Rightarrow> codepoint list" where
  "str s = map of_char s"

text \<open>
  \<open>editdistance.eval\<close> of the package \<open>editdistance\<close> is the Levenshtein distance:
  the least number of single-character insertions, deletions and substitutions.
\<close>

fun editdistance :: "'a list \<Rightarrow> 'a list \<Rightarrow> int" where
  "editdistance [] ys = int (length ys)"
| "editdistance (x # xs) [] = int (length (x # xs))"
| "editdistance (x # xs) (y # ys) =
     min (min (editdistance xs (y # ys) + 1) (editdistance (x # xs) ys + 1))
         (editdistance xs ys + (if x = y then 0 else 1))"

text \<open>\<open>sep.join(parts)\<close>.\<close>

fun join :: "'a list \<Rightarrow> 'a list list \<Rightarrow> 'a list" where
  "join sep [] = []"
| "join sep [p] = p"
| "join sep (p # q # ps) = p @ sep @ join sep (q # ps)"

text \<open>
  \<open>str.lower()\<close> is Unicode lowercasing, a capability of the runtime that is not a
  character-wise map in general; \<open>similarity\<close> takes it as the parameter \<open>lower\<close>.
  The separator \<open>" "\<close> is the code point 32. \<open>n1_tokens[0]\<close> and \<open>n1_tokens[-1]\<close>
  raise \<open>IndexError\<close> on an empty list; \<open>n1_tokens[1:]\<close> and \<open>n1_tokens[:-1]\<close> are
  slices.
\<close>

definition similarity ::
  "(codepoint list \<Rightarrow> codepoint list) \<Rightarrow> codepoint list \<Rightarrow> codepoint list \<Rightarrow> error + int" where
  "similarity lower name1 name2 =
     (let n1_tokens = py_split 32 name1
      in case n1_tokens of
           [] \<Rightarrow> Inl IndexError
         | t0 # _ \<Rightarrow>
             (let permute1 = join [32] (drop 1 n1_tokens @ [t0]);
                  permute2 = join [32] ([last n1_tokens] @ butlast n1_tokens)
              in Inr (min (editdistance (lower name1) (lower name2))
                       (min (editdistance (lower permute1) (lower name2))
                            (editdistance (lower permute2) (lower name2))))))"

text \<open>
  The reading of the specification that tokenizes by whitespace: the tokens are the
  maximal runs of characters that are not whitespace (the code points for which
  \<open>str.isspace\<close> holds), as \<open>name1.split()\<close> yields them.
\<close>

definition is_whitespace :: "codepoint \<Rightarrow> bool" where
  "is_whitespace c =
     (c \<in> set [9, 10, 11, 12, 13, 28, 29, 30, 31, 32, 133, 160, 5760]
      \<or> (8192 \<le> c \<and> c \<le> 8202)
      \<or> c \<in> set [8232, 8233, 8239, 8287, 12288])"

definition whitespace_tokens :: "codepoint list \<Rightarrow> codepoint list list" where
  "whitespace_tokens s = filter (\<lambda>t. t \<noteq> []) (split_where is_whitespace s)"

definition similarity_spec ::
  "(codepoint list \<Rightarrow> codepoint list) \<Rightarrow> codepoint list \<Rightarrow> codepoint list \<Rightarrow> int" where
  "similarity_spec lower name1 name2 =
     (let tokens = whitespace_tokens name1;
          first_to_end = join [32] (tl tokens @ [hd tokens]);
          last_to_front = join [32] (last tokens # butlast tokens)
      in Min {editdistance (lower name1) (lower name2),
              editdistance (lower first_to_end) (lower name2),
              editdistance (lower last_to_front) (lower name2)})"

text \<open>
  \<open>str.lower()\<close> on a string of ASCII characters: the letters \<open>A\<close> to \<open>Z\<close> go to
  \<open>a\<close> to \<open>z\<close>. It stands for \<open>str.lower()\<close> at concrete ASCII inputs only.
\<close>

definition lower_ascii :: "codepoint list \<Rightarrow> codepoint list" where
  "lower_ascii s = map (\<lambda>c. if 65 \<le> c \<and> c \<le> 90 then c + 32 else c) s"

subsection \<open>get\_person\_results\<close>

text \<open>
  The external providers are capabilities. \<open>aminer_get\<close> is the \<open>result\<close> list of the
  AMiner response for a name, \<open>scholarly_search_author\<close> the authors that the Google
  Scholar search yields in order, \<open>orcid_search\<close> the \<open>common:path\<close> entries of the
  ORCID search for a name with \<open>start\<close> and \<open>rows\<close>, \<open>orcid_get\<close> the record behind
  one ORCID path, and \<open>set_order\<close> the order in which \<open>list(set(...))\<close> lists the
  distinct elements. A request that fails raises.
\<close>

record aminer_data =
  am_id :: string
  am_name :: string
  am_aff_desc :: "string option"
  am_aff_desc_zh :: "string option"
  am_tags :: "string list option"

record gscholar_author =
  gs_id :: string
  gs_name :: string
  gs_affiliation :: string
  gs_interests :: "string list"

record orcid_record =
  given_names :: "string option"
  family_name :: "string option"
  affiliation_names :: "string list"
  keyword_contents :: "string list"

record providers =
  aminer_get :: "string \<Rightarrow> error + aminer_data list"
  scholarly_search_author :: "string \<Rightarrow> error + gscholar_author list"
  orcid_search :: "string \<Rightarrow> int \<Rightarrow> int \<Rightarrow> error + string list"
  orcid_get :: "string \<Rightarrow> error + orcid_record"
  set_order :: "string list \<Rightarrow> string list"

type_synonym collated = "string \<times> string \<times> string list \<times> string list"

text \<open>The slice \<open>result[0: n]\<close>; a negative \<open>n\<close> counts from the end.\<close>

definition slice_to :: "'a list \<Rightarrow> int \<Rightarrow> 'a list" where
  "slice_to xs n = (if 0 \<le> n then take (nat n) xs else take (length xs - nat (- n)) xs)"

definition aminer_person :: "providers \<Rightarrow> string \<Rightarrow> int \<Rightarrow> error + collated list" where
  "aminer_person w name num_results =
     (case aminer_get w name of
        Inl e \<Rightarrow> Inl e
      | Inr result \<Rightarrow>
          Inr (map (\<lambda>person_data.
                      (am_id person_data, am_name person_data,
                       (case am_aff_desc person_data of
                          Some d \<Rightarrow> [d]
                        | None \<Rightarrow>
                            (case am_aff_desc_zh person_data of
                               Some d \<Rightarrow> [d]
                             | None \<Rightarrow> [''Not Available''])),
                       (case am_tags person_data of Some ts \<Rightarrow> ts | None \<Rightarrow> [])))
                 (slice_to result num_results)))"

fun gscholar_loop ::
  "gscholar_author list \<Rightarrow> int \<Rightarrow> int \<Rightarrow> collated list \<Rightarrow> collated list" where
  "gscholar_loop [] i num_results collated_data = collated_data"
| "gscholar_loop (author # authors) i num_results collated_data =
     (if i < num_results
      then gscholar_loop authors (i + 1) num_results
             (collated_data @
                [(gs_id author, gs_name author, [gs_affiliation author], gs_interests author)])
      else collated_data)"

definition gscholar_person :: "providers \<Rightarrow> string \<Rightarrow> int \<Rightarrow> error + collated list" where
  "gscholar_person w name num_results =
     (case scholarly_search_author w name of
        Inl e \<Rightarrow> Inl e
      | Inr authors \<Rightarrow> Inr (gscholar_loop authors 0 num_results []))"

fun orcid_loop :: "providers \<Rightarrow> string list \<Rightarrow> collated list \<Rightarrow> error + collated list" where
  "orcid_loop w [] collated_data = Inr collated_data"
| "orcid_loop w (orcid # els) collated_data =
     (case orcid_get w orcid of
        Inl e \<Rightarrow> Inl e
      | Inr data_root \<Rightarrow>
          (let given_name = (case given_names data_root of Some g \<Rightarrow> g | None \<Rightarrow> []);
               family = (case family_name data_root of Some f \<Rightarrow> f | None \<Rightarrow> []);
               affiliations = set_order w (affiliation_names data_root);
               keywords = set_order w (keyword_contents data_root)
           in orcid_loop w els
                (collated_data @ [(orcid, given_name @ '' '' @ family, affiliations, keywords)])))"

definition orcid_person :: "providers \<Rightarrow> string \<Rightarrow> int \<Rightarrow> error + collated list" where
  "orcid_person w name num_results =
     (let start_idx = 0; end_idx = num_results
      in case orcid_search w name start_idx end_idx of
           Inl e \<Rightarrow> Inl e
         | Inr els \<Rightarrow> orcid_loop w els [])"

record Person =
  person_type :: string
  person_id :: string
  person_name :: string
  person_aff :: "string list"
  person_topics :: "string list"

definition Person_init :: "string \<times> collated \<Rightarrow> Person" where
  "Person_init tuple_data =
     \<lparr>person_type = fst tuple_data,
      person_id = fst (snd tuple_data),
      person_name = fst (snd (snd tuple_data)),
      person_aff = fst (snd (snd (snd tuple_data))),
      person_topics = snd (snd (snd (snd tuple_data)))\<rparr>"

text \<open>The assignment \<open>num_to_search = 5\<close> rebinds the parameter before its first use.\<close>

definition get_person_results ::
  "providers \<Rightarrow> string \<Rightarrow> string \<Rightarrow> int \<Rightarrow> error + Person list" where
  "get_person_results w name org num_to_search =
     (let num_to_search = 5
      in case orcid_person w name num_to_search of
           Inl e \<Rightarrow> Inl e
         | Inr orcid_results \<Rightarrow>
             (case aminer_person w name num_to_search of
                Inl e \<Rightarrow> Inl e
              | Inr aminer_results \<Rightarrow>
                  (case gscholar_person w name num_to_search of
                     Inl e \<Rightarrow> Inl e
                   | Inr gscholar_results \<Rightarrow>
                       Inr (map Person_init
                              (map (Pair ''orcid'') orcid_results @
                               map (Pair ''aminer_id'') aminer_results @
                               map (Pair ''gscholar_id'') gscholar_results)))))"

section \<open>Concrete inputs\<close>

text \<open>
  One page of conference 7: a role label at indentation 0, a person line at indentation 5
  and an affiliation line at indentation 14, on consecutive line numbers.
\<close>

definition rl_chair :: Line where
  "rl_chair = \<lparr>line_id = 1, page_id = 1, num = 0, indent = 0, line_text = ''PC Chair'',
                label = ''Role-Label'', svm_prediction = ''Role-Label'',
                dl_prediction = ''Role-Label''\<rparr>"

definition ln_alice :: Line where
  "ln_alice = \<lparr>line_id = 2, page_id = 1, num = 1, indent = 5, line_text = ''Alice'',
                label = ''Person'', svm_prediction = ''Person'', dl_prediction = ''Person''\<rparr>"

definition ln_mit :: Line where
  "ln_mit = \<lparr>line_id = 3, page_id = 1, num = 2, indent = 14, line_text = ''MIT'',
              label = ''Affiliation'', svm_prediction = ''Affiliation'',
              dl_prediction = ''Affiliation''\<rparr>"

definition cur_chain :: cursor where
  "cur_chain = \<lparr>ConferencePages = [(1, 7)], PageLines = [rl_chair, ln_alice, ln_mit]\<rparr>"

definition cur_lonely :: cursor where
  "cur_lonely = \<lparr>ConferencePages = [(1, 7)], PageLines = [rl_chair]\<rparr>"

text \<open>A second block, and an affiliation line that names two organizations.\<close>

definition rl_organizer :: Line where
  "rl_organizer = \<lparr>line_id = 4, page_id = 1, num = 3, indent = 0, line_text = ''Organizer'',
                    label = ''Role-Label'', svm_prediction = ''Role-Label'',
                    dl_prediction = ''Role-Label''\<rparr>"

definition ln_bob :: Line where
  "ln_bob = \<lparr>line_id = 5, page_id = 1, num = 4, indent = 5, line_text = ''Bob'',
              label = ''Person'', svm_prediction = ''Person'', dl_prediction = ''Person''\<rparr>"

definition ln_nus :: Line where
  "ln_nus = \<lparr>line_id = 6, page_id = 1, num = 5, indent = 5, line_text = ''NUS'',
              label = ''Affiliation'', svm_prediction = ''Affiliation'',
              dl_prediction = ''Affiliation''\<rparr>"

definition ln_carol :: Line where
  "ln_carol = \<lparr>line_id = 7, page_id = 1, num = 6, indent = 5, line_text = ''Carol'',
                label = ''Person'', svm_prediction = ''Person'', dl_prediction = ''Person''\<rparr>"

definition rl_publicity :: Line where
  "rl_publicity = \<lparr>line_id = 8, page_id = 1, num = 7, indent = 0, line_text = ''Publicity'',
                    label = ''Role-Label'', svm_prediction = ''Role-Label'',
                    dl_prediction = ''Role-Label''\<rparr>"

definition ln_dave :: Line where
  "ln_dave = \<lparr>line_id = 9, page_id = 1, num = 8, indent = 5, line_text = ''Dave'',
               label = ''Person'', svm_prediction = ''Person'', dl_prediction = ''Person''\<rparr>"

definition ln_two_orgs :: Line where
  "ln_two_orgs = \<lparr>line_id = 10, page_id = 1, num = 9, indent = 5, line_text = ''MIT,NUS'',
                   label = ''Affiliation'', svm_prediction = ''Affiliation'',
                   dl_prediction = ''Affiliation''\<rparr>"

text \<open>A tagger that knows two organizations.\<close>

definition stub_tagger :: tagger where
  "stub_tagger part =
     (if part = ''MIT'' then [(''MIT'', ''ORG'')]
      else if part = ''NUS'' then [(''NUS'', ''ORG'')]
      else [])"

text \<open>
  An extractor over empty tables in gold mode, for conference 7: without a graph driver,
  with an open graph session whose next node identifier is 100, and with a relational
  store that fails on inserting the organization \<open>NUS\<close>.
\<close>

definition store_empty :: LineInfoExtractor where
  "store_empty =
     \<lparr>Persons = [], Organizations = [], PersonRole = [], PersonOrganization = [],
      executed = [], faulty = [], extraction_type = ''gold'', driver = False,
      session = None, graph_next = 100, graph_log = [], graph_faulty = [],
      sql_conf_id = Some 7, n4j_conf_id = None\<rparr>"

definition store_graph :: LineInfoExtractor where
  "store_graph = store_empty\<lparr>driver := True, session := Some Open, n4j_conf_id := Some 99\<rparr>"

definition store_faulty :: LineInfoExtractor where
  "store_faulty = store_empty\<lparr>faulty := [InsertOrganization ''NUS'']\<rparr>"

text \<open>
  The faulty store after the block of the chair, and at the moment when the insertion of
  \<open>NUS\<close> raises in the block of the organizer.
\<close>

definition store_after_chair :: LineInfoExtractor where
  "store_after_chair =
     store_faulty\<lparr>Persons := [(1, ''Alice'')], Organizations := [(1, ''MIT'', None)],
       PersonRole := [(''PC Chair'', 7, 1)], PersonOrganization := [(1, 1)],
       executed := [InsertPerson ''Alice'', SelectPersonId ''Alice'',
                    InsertPersonRole ''PC Chair'' 7 1, InsertOrganization ''MIT'',
                    SelectOrganizationId ''MIT'', InsertPersonOrganization 1 1]\<rparr>"

definition store_at_failure :: LineInfoExtractor where
  "store_at_failure =
     store_after_chair\<lparr>Persons := [(1, ''Alice''), (2, ''Bob'')],
       PersonRole := [(''PC Chair'', 7, 1), (''Organizer'', 7, 2)],
       executed := executed store_after_chair @
                   [InsertPerson ''Bob'', SelectPersonId ''Bob'',
                    InsertPersonRole ''Organizer'' 7 2]\<rparr>"

definition conf_three_blocks :: Conference where
  "conf_three_blocks =
     \<lparr>conference_id = 7, n4j_attrs = ''Conf'',
      conference_blocks =
        [(rl_chair, [ln_alice, ln_mit]),
         (rl_organizer, [ln_bob, ln_nus, ln_carol, ln_mit]),
         (rl_publicity, [ln_dave, ln_mit])]\<rparr>"

text \<open>
  Providers that answer every name alike: the ORCID search yields as many paths as rows are
  asked for, AMiner seven records and Google Scholar six authors.
\<close>

definition providers_many :: providers where
  "providers_many =
     \<lparr>aminer_get = (\<lambda>name. Inr (replicate 7
          \<lparr>am_id = ''a1'', am_name = ''Ann Lee'', am_aff_desc = None,
           am_aff_desc_zh = None, am_tags = None\<rparr>)),
      scholarly_search_author = (\<lambda>name. Inr (replicate 6
          \<lparr>gs_id = ''g1'', gs_name = ''Ann Lee'', gs_affiliation = ''NUS'',
           gs_interests = []\<rparr>)),
      orcid_search = (\<lambda>name start_idx rows. Inr (replicate (nat rows) ''0000-0001'')),
      orcid_get = (\<lambda>orcid. Inr \<lparr>given_names = Some ''Ann'', family_name = Some ''Lee'',
          affiliation_names = [], keyword_contents = []\<rparr>),
      set_order = remdups\<rparr>"

section \<open>Notions of the statements\<close>

text \<open>
  The grouping as the specification words it: a role-label line opens a block, possibly
  empty; a later line is accepted into the open block when its indentation is within the
  threshold of the role label's and its line number within the threshold of the last
  accepted line's (the role label itself at first); a further role label closes the block.
\<close>

definition accepts_spec :: "int \<Rightarrow> int \<Rightarrow> Line \<Rightarrow> Line \<Rightarrow> Line \<Rightarrow> bool" where
  "accepts_spec indent_diff_thresh lnum_diff_thresh current_role_label last_matched_line line =
     (\<bar>indent line - indent current_role_label\<bar> < indent_diff_thresh
      \<and> \<bar>num line - num last_matched_line\<bar> < lnum_diff_thresh)"

fun accepted_lines :: "string \<Rightarrow> int \<Rightarrow> int \<Rightarrow> Line \<Rightarrow> Line \<Rightarrow> Line list \<Rightarrow> Line list" where
  "accepted_lines et it lt rl last_matched [] = []"
| "accepted_lines et it lt rl last_matched (line # rest) =
     (if active_label et line = ''Role-Label'' then []
      else if accepts_spec it lt rl last_matched line
      then line # accepted_lines et it lt rl line rest
      else accepted_lines et it lt rl last_matched rest)"

fun group_spec :: "string \<Rightarrow> int \<Rightarrow> int \<Rightarrow> Line list \<Rightarrow> blocks" where
  "group_spec et it lt [] = []"
| "group_spec et it lt (line # rest) =
     (if active_label et line = ''Role-Label''
      then (line, accepted_lines et it lt line line rest) # group_spec et it lt rest
      else group_spec et it lt rest)"

text \<open>
  The relational identifier that belongs to a name: the identifier of its row, or the one
  that a new row would take.
\<close>

definition person_sql_id :: "(int \<times> string) list \<Rightarrow> string \<Rightarrow> int" where
  "person_sql_id rows name =
     (case find (\<lambda>r. snd r = name) rows of
        Some r \<Rightarrow> fst r
      | None \<Rightarrow> next_id (map fst rows))"

definition organization_sql_id :: "(int \<times> string \<times> string option) list \<Rightarrow> string \<Rightarrow> int" where
  "organization_sql_id rows name =
     (case find (\<lambda>r. fst (snd r) = name) rows of
        Some r \<Rightarrow> fst r
      | None \<Rightarrow> next_id (map fst rows))"

text \<open>
  An extractor whose stores answer: no statement is faulty, the conference is set, and the
  graph session is either absent or open, without faulty transactions and with its
  conference node.
\<close>

definition graph_ready :: "LineInfoExtractor \<Rightarrow> bool" where
  "graph_ready s =
     (if session s = None then True
      else session s = Some Open \<and> graph_faulty s = [] \<and> n4j_conf_id s \<noteq> None)"

definition ready :: "LineInfoExtractor \<Rightarrow> bool" where
  "ready s = (faulty s = [] \<and> sql_conf_id s \<noteq> None \<and> graph_ready s)"

text \<open>The entry that a block with the accepted lines \<open>acc\<close> has in the mapping, if any.\<close>

definition emit :: "Line \<Rightarrow> Line list \<Rightarrow> blocks" where
  "emit rl acc = (if acc = [] then [] else [(rl, acc)])"

text \<open>
  The writes of one fact, in the order in which the writers issue them: a statement to the
  relational cursor or a transaction to the graph session. \<open>run_actions\<close> performs them
  one after the other and stops at the first that raises, in the state reached by then.
\<close>

datatype action = Sql stmt | Graph tx

fun run_actions :: "LineInfoExtractor \<Rightarrow> action list \<Rightarrow> unit result" where
  "run_actions s [] = Inr ((), s)"
| "run_actions s (Sql st # rest) =
     (case execute s st of Inl e \<Rightarrow> Inl e | Inr (_, s1) \<Rightarrow> run_actions s1 rest)"
| "run_actions s (Graph t # rest) =
     (case write_transaction s t of Inl e \<Rightarrow> Inl e | Inr (_, s1) \<Rightarrow> run_actions s1 rest)"

definition action_ok :: "LineInfoExtractor \<Rightarrow> action \<Rightarrow> bool" where
  "action_ok s a =
     (case a of
        Sql st \<Rightarrow> st \<notin> set (faulty s)
      | Graph t \<Rightarrow> session s = Some Open \<and> t \<notin> set (graph_faulty s))"

definition action_error :: "action \<Rightarrow> error" where
  "action_error a = (case a of Sql st \<Rightarrow> StoreWriteFailure | Graph t \<Rightarrow> GraphWriteFailure)"

definition sql_of :: "action list \<Rightarrow> stmt list" where
  "sql_of acts = concat (map (\<lambda>a. case a of Sql st \<Rightarrow> [st] | Graph t \<Rightarrow> []) acts)"

text \<open>Every transaction in a list of writes is one that the graph session accepts.\<close>

definition graphs_ok :: "LineInfoExtractor \<Rightarrow> action list \<Rightarrow> bool" where
  "graphs_ok s acts =
     list_all (\<lambda>a. case a of Sql st \<Rightarrow> True | Graph t \<Rightarrow> action_ok s a) acts"

text \<open>A transaction is issued only when there is a session object.\<close>

definition graph_part :: "LineInfoExtractor \<Rightarrow> tx \<Rightarrow> action list" where
  "graph_part s t = (if session s \<noteq> None then [Graph t] else [])"

text \<open>The entry of \<open>line_parts\<close> when it is truthy.\<close>

definition nonempty :: "string option \<Rightarrow> string option" where
  "nonempty v = (if truthy v then v else None)"

text \<open>
  The writes of the fact made of a role, a person (if any), an organization (if any) and
  its location (if any), issued in the state \<open>s\<close>: person and role; organization and
  location, where \<open>go\<close> is the graph id of the organization node; then the affiliation
  when both a person and an organization are there.
\<close>

definition person_actions ::
  "LineInfoExtractor \<Rightarrow> string \<Rightarrow> string option \<Rightarrow> action list" where
  "person_actions s role person =
     (case person of
        None \<Rightarrow> []
      | Some name \<Rightarrow>
          [Sql (InsertPerson name), Sql (SelectPersonId name)]
          @ graph_part s (TxFn_create_person name)
          @ [Sql (InsertPersonRole role (the (sql_conf_id s))
                    (person_sql_id (Persons s) name))]
          @ graph_part s (TxFn_create_role_rel (graph_next s) role (the (n4j_conf_id s))))"

definition organization_actions ::
  "LineInfoExtractor \<Rightarrow> int \<Rightarrow> string option \<Rightarrow> string option \<Rightarrow> action list" where
  "organization_actions s go org loc =
     (case org of
        None \<Rightarrow> []
      | Some organization \<Rightarrow>
          [Sql (InsertOrganization organization), Sql (SelectOrganizationId organization)]
          @ graph_part s (TxFn_create_organization organization)
          @ (case loc of
               None \<Rightarrow> []
             | Some l \<Rightarrow>
                 [Sql (UpdateOrganizationLocation l
                         (organization_sql_id (Organizations s) organization))]
                 @ graph_part s (TxFn_update_org_loc go l)))"

definition affiliation_actions ::
  "LineInfoExtractor \<Rightarrow> string option \<Rightarrow> string option \<Rightarrow> action list" where
  "affiliation_actions s person org =
     (case (person, org) of
        (Some name, Some organization) \<Rightarrow>
          [Sql (InsertPersonOrganization
                  (organization_sql_id (Organizations s) organization)
                  (person_sql_id (Persons s) name))]
          @ graph_part s (TxFn_create_affiliation_rel (graph_next s)
                            (organization_sql_id (Organizations s) organization))
      | _ \<Rightarrow> [])"

definition fact_actions ::
  "LineInfoExtractor \<Rightarrow> string \<Rightarrow> string option \<Rightarrow> string option \<Rightarrow> string option
     \<Rightarrow> action list" where
  "fact_actions s role person org loc =
     person_actions s role person
     @ organization_actions s
         (if person = None then graph_next s else graph_next s + 1) org loc
     @ affiliation_actions s person org"

text \<open>
  The calls of the writers for such a fact, as \<open>process_pair\<close> and
  \<open>process_complex\<close> make them, in the same three parts.
\<close>

definition emit_person ::
  "LineInfoExtractor \<Rightarrow> string \<Rightarrow> string option \<Rightarrow> (int \<times> int) option result" where
  "emit_person s role person =
     (case person of
        None \<Rightarrow> Inr (None, s)
      | Some name \<Rightarrow>
          (case add_person s name of
             Inl e \<Rightarrow> Inl e
           | Inr (person_ids, s1) \<Rightarrow>
               (case add_role_rel s1 person_ids role of
                  Inl e \<Rightarrow> Inl e
                | Inr (_, s2) \<Rightarrow> Inr (Some person_ids, s2))))"

definition emit_organization ::
  "LineInfoExtractor \<Rightarrow> string option \<Rightarrow> string option \<Rightarrow> (int \<times> int) option result" where
  "emit_organization s org loc =
     (case org of
        None \<Rightarrow> Inr (None, s)
      | Some organization \<Rightarrow>
          (case add_organization s organization of
             Inl e \<Rightarrow> Inl e
           | Inr (org_ids, s3) \<Rightarrow>
               (case loc of
                  None \<Rightarrow> Inr (Some org_ids, s3)
                | Some l \<Rightarrow>
                    (case update_org_loc s3 org_ids l of
                       Inl e \<Rightarrow> Inl e
                     | Inr (_, s4) \<Rightarrow> Inr (Some org_ids, s4)))))"

definition emit_affiliation ::
  "LineInfoExtractor \<Rightarrow> (int \<times> int) option \<Rightarrow> (int \<times> int) option \<Rightarrow> unit result" where
  "emit_affiliation s person_ids org_ids =
     (case (person_ids, org_ids) of
        (Some pids, Some oids) \<Rightarrow> add_affiliation_rel s pids oids
      | _ \<Rightarrow> Inr ((), s))"

definition emit_fact ::
  "LineInfoExtractor \<Rightarrow> string \<Rightarrow> string option \<Rightarrow> string option \<Rightarrow> string option
     \<Rightarrow> unit result" where
  "emit_fact s role person org loc =
     (case emit_person s role person of
        Inl e \<Rightarrow> Inl e
      | Inr (person_ids, s2) \<Rightarrow>
          (case emit_organization s2 org loc of
             Inl e \<Rightarrow> Inl e
           | Inr (org_ids, s4) \<Rightarrow> emit_affiliation s4 person_ids org_ids))"

definition pair_actions ::
  "tagger \<Rightarrow> LineInfoExtractor \<Rightarrow> Line \<Rightarrow> Line \<Rightarrow> Line \<Rightarrow> action list" where
  "pair_actions tg s person affiliation role_label =
     (let line_parts = get_line_parts_flair tg affiliation
      in fact_actions s (line_text role_label) (Some (line_text person))
           (nonempty (line_parts ''ORG'')) (nonempty (line_parts ''LOC'')))"

definition complex_actions ::
  "tagger \<Rightarrow> LineInfoExtractor \<Rightarrow> Line \<Rightarrow> Line \<Rightarrow> action list" where
  "complex_actions tg s line role_label =
     (let line_parts = get_line_parts_flair tg line
      in fact_actions s (line_text role_label) (nonempty (line_parts ''PER''))
           (nonempty (line_parts ''ORG'')) (nonempty (line_parts ''LOC'')))"

text \<open>
  The writes that one line of a block brings about, given the two pending lines: those of
  a complex line, those of the pair that a person or affiliation line completes, and none
  for a line that is only kept as pending or has an unexpected label.
\<close>

definition line_actions ::
  "tagger \<Rightarrow> Line \<Rightarrow> Line \<Rightarrow> Line option \<Rightarrow> Line option \<Rightarrow> LineInfoExtractor
     \<Rightarrow> action list" where
  "line_actions tg role_label cur_line u_person u_aff s =
     (let lbl = active_label (extraction_type s) cur_line
      in if lbl = ''Complex'' then complex_actions tg s cur_line role_label
         else if lbl = ''Person''
         then (case u_aff of
                 Some aff \<Rightarrow> pair_actions tg s cur_line aff role_label
               | None \<Rightarrow> [])
         else if lbl = ''Affiliation''
         then (case u_person of
                 Some per \<Rightarrow> pair_actions tg s per cur_line role_label
               | None \<Rightarrow> [])
         else [])"

section \<open>Properties of BlockExtractor\<close>

subsection \<open>Line retrieval\<close>

lemma get_relevant_lines_chain:
  "get_relevant_lines cur_chain ''gold'' 7 = [rl_chair, ln_alice, ln_mit]"
  by (simp add: get_relevant_lines_def select_page_ids_def select_lines_def cur_chain_def
      rl_chair_def ln_alice_def ln_mit_def)

lemma get_relevant_lines_lonely:
  "get_relevant_lines cur_lonely ''gold'' 7 = [rl_chair]"
  by (simp add: get_relevant_lines_def select_page_ids_def select_lines_def cur_lonely_def
      rl_chair_def)

lemma get_relevant_lines_loop_gold:
  "get_relevant_lines_loop cur ''gold'' pids acc
     = acc @ concat (map (select_lines cur label) pids)"
  by (induction pids arbitrary: acc) simp_all

lemma get_relevant_lines_loop_dl:
  "get_relevant_lines_loop cur ''dl_prediction'' pids acc
     = acc @ concat (map (select_lines cur dl_prediction) pids)"
  by (induction pids arbitrary: acc) simp_all

lemma get_relevant_lines_loop_other:
  "et \<noteq> ''gold'' \<Longrightarrow> et \<noteq> ''dl_prediction''
     \<Longrightarrow> get_relevant_lines_loop cur et pids [] = []"
  by (cases pids) simp_all

lemma page_of_selected: "l \<in> set (select_lines cur f pid) \<Longrightarrow> page_id l = pid"
  by (simp add: select_lines_def)

lemma distinct_select_lines: "distinct (PageLines cur) \<Longrightarrow> distinct (select_lines cur f pid)"
  by (simp add: select_lines_def)

lemma distinct_selected_pages:
  "distinct pids \<Longrightarrow> distinct (PageLines cur)
     \<Longrightarrow> distinct (concat (map (select_lines cur f) pids))"
proof (induction pids)
  case Nil
  show ?case by simp
next
  case (Cons pid pids)
  have "set (select_lines cur f pid) \<inter> set (concat (map (select_lines cur f) pids)) = {}"
    using Cons.prems(1) by (auto dest!: page_of_selected)
  with Cons show ?case by (simp add: distinct_select_lines)
qed

lemma distinct_get_relevant_lines:
  assumes "distinct (map line_id (PageLines cur))"
    and "distinct (map fst (ConferencePages cur))"
  shows "distinct (get_relevant_lines cur et conf_id)"
proof -
  have rows: "distinct (PageLines cur)"
    using assms(1) by (rule distinct_map[THEN iffD1, THEN conjunct1])
  have pages: "distinct (select_page_ids cur conf_id)"
    unfolding select_page_ids_def using assms(2) by (rule distinct_map_filter)
  consider "et = ''gold''" | "et = ''dl_prediction''"
    | "et \<noteq> ''gold''" "et \<noteq> ''dl_prediction''" by blast
  then show ?thesis
  proof cases
    case 1
    with rows pages show ?thesis
      by (simp add: get_relevant_lines_def get_relevant_lines_loop_gold distinct_selected_pages)
  next
    case 2
    with rows pages show ?thesis
      by (simp add: get_relevant_lines_def get_relevant_lines_loop_dl distinct_selected_pages)
  next
    case 3
    then show ?thesis
      by (simp add: get_relevant_lines_def get_relevant_lines_loop_other)
  qed
qed

text \<open>
  C6. In the mode \<open>svm_prediction\<close> the retrieval returns the empty list for every
  cursor and conference: the lines selected by the first \<open>if\<close> are dropped when the
  \<open>else\<close> of the chain that follows returns. On the page of conference 7 in
  \<open>cur_chain\<close> three lines have non-empty text and an \<open>svm_prediction\<close> other than
  \<open>Undefined\<close>, and none of them is returned.
\<close>

theorem get_relevant_lines_svm_prediction_empty:
  "get_relevant_lines cur ''svm_prediction'' conf_id = []
   \<and> select_page_ids cur_chain 7 = [1]
   \<and> select_lines cur_chain svm_prediction 1 = [rl_chair, ln_alice, ln_mit]"
proof -
  have "get_relevant_lines cur ''svm_prediction'' conf_id = []"
    by (simp add: get_relevant_lines_def get_relevant_lines_loop_other)
  moreover have "select_page_ids cur_chain 7 = [1]"
    by (simp add: select_page_ids_def cur_chain_def)
  moreover have "select_lines cur_chain svm_prediction 1 = [rl_chair, ln_alice, ln_mit]"
    by (simp add: select_lines_def cur_chain_def rl_chair_def ln_alice_def ln_mit_def)
  ultimately show ?thesis by simp
qed

subsection \<open>Grouping\<close>

lemma get_relevant_blocks_chain:
  "get_relevant_blocks cur_chain ''gold'' 7 10 10 = Inr [(rl_chair, [ln_alice])]"
  by (simp add: get_relevant_blocks_def get_relevant_lines_chain)
    (simp add: active_label_def within_threshold_def dd_get_def
      rl_chair_def ln_alice_def ln_mit_def)

text \<open>
  C3, as stated: with both thresholds 10, the line at indentation 14 would be accepted
  after the line at indentation 5. It is not: the block of the role label holds the first
  content line only.
\<close>

theorem chain_second_line_not_accepted:
  "get_relevant_blocks cur_chain ''gold'' 7 10 10 \<noteq> Inr [(rl_chair, [ln_alice, ln_mit])]"
  by (simp add: get_relevant_blocks_chain)

text \<open>
  C3, amended: for the role label at indentation 0 and line 0, the line at indentation 5
  and line 1, and the line at indentation 14 and line 2, with both thresholds 10, the
  first content line is accepted and the second is rejected. The second line is within 10
  of the accepted line both in indentation and in line number, but the indentation is
  checked against the role label, from which it is 14 away; only the line number is
  checked against the last accepted line.
\<close>

theorem chain_indent_against_role_label:
  "get_relevant_lines cur_chain ''gold'' 7 = [rl_chair, ln_alice, ln_mit]
   \<and> get_relevant_blocks cur_chain ''gold'' 7 10 10 = Inr [(rl_chair, [ln_alice])]
   \<and> within_threshold 10 10 ln_alice rl_chair rl_chair
   \<and> \<bar>indent ln_mit - indent ln_alice\<bar> < 10
   \<and> \<bar>num ln_mit - num ln_alice\<bar> < 10
   \<and> \<bar>indent ln_mit - indent rl_chair\<bar> = 14
   \<and> within_threshold 10 10 ln_mit ln_alice rl_chair = False"
  by (simp add: get_relevant_lines_chain get_relevant_blocks_chain within_threshold_def
      rl_chair_def ln_alice_def ln_mit_def)

text \<open>
  C4, as stated: every role-label line would be a key of the mapping. A page that holds a
  role label and nothing else yields the empty mapping.
\<close>

theorem role_label_without_content_is_no_key:
  "get_relevant_lines cur_lonely ''gold'' 7 = [rl_chair]
   \<and> active_label ''gold'' rl_chair = ''Role-Label''
   \<and> group_spec ''gold'' 10 10 (get_relevant_lines cur_lonely ''gold'' 7) = [(rl_chair, [])]
   \<and> get_relevant_blocks cur_lonely ''gold'' 7 10 10 = Inr []"
  by (simp add: get_relevant_blocks_def get_relevant_lines_lonely active_label_def rl_chair_def)

lemma dd_set_fresh: "map_of m k = None \<Longrightarrow> dd_set (m @ [(k, w)]) k v = m @ [(k, v)]"
  by (induction m) (auto split: if_splits)

lemma map_of_fresh: "k \<notin> fst ` set m \<Longrightarrow> map_of m k = None"
  by (simp add: map_of_eq_None_iff)

lemma within_threshold_spec:
  "within_threshold it lt line pl rl = accepts_spec it lt rl pl line"
  by (simp add: within_threshold_def accepts_spec_def)

lemma accept_step:
  assumes "rl \<notin> fst ` set m0" and "dd_get (m0 @ emit rl acc) rl = (m1, v)"
  shows "(if v \<noteq> [] then dd_set m1 rl (v @ [line]) else dd_set m1 rl [line])
         = m0 @ emit rl (acc @ [line])"
proof -
  from assms(1) have none: "map_of m0 rl = None" by (rule map_of_fresh)
  show ?thesis
  proof (cases "acc = []")
    case True
    with assms(2) none have "m1 = m0 @ [(rl, [])]" "v = []"
      by (simp_all add: emit_def dd_get_def)
    with none True show ?thesis by (simp add: emit_def dd_set_fresh)
  next
    case False
    with assms(2) none have "m1 = m0 @ [(rl, acc)]" "v = acc"
      by (auto simp add: emit_def dd_get_def map_add_def)
    with none False show ?thesis by (simp add: emit_def dd_set_fresh)
  qed
qed

lemma loop_open_block:
  assumes "rl \<notin> fst ` set m0"
    and "\<forall>l \<in> set lines. active_label et l = ''Role-Label'' \<longrightarrow> l \<notin> fst ` set m0 \<and> l \<noteq> rl"
    and "distinct (filter (\<lambda>l. active_label et l = ''Role-Label'') lines)"
  shows "get_relevant_blocks_loop et it lt lines (m0 @ emit rl acc) (Some rl) (Some pl)
         = Inr (m0 @ emit rl (acc @ accepted_lines et it lt rl pl lines)
                  @ filter (\<lambda>b. snd b \<noteq> []) (group_spec et it lt lines))"
  using assms
proof (induction lines arbitrary: m0 rl acc pl)
  case Nil
  show ?case by simp
next
  case (Cons line rest)
  show ?case
  proof (cases "active_label et line = ''Role-Label''")
    case True
    have fresh: "line \<notin> fst ` set (m0 @ emit rl acc)"
      using Cons.prems(2) True by (auto simp: emit_def)
    have others: "\<forall>l \<in> set rest. active_label et l = ''Role-Label''
        \<longrightarrow> l \<notin> fst ` set (m0 @ emit rl acc) \<and> l \<noteq> line"
      using Cons.prems(2,3) True by (auto simp: emit_def)
    have dist: "distinct (filter (\<lambda>l. active_label et l = ''Role-Label'') rest)"
      using Cons.prems(3) by (simp split: if_splits)
    have "get_relevant_blocks_loop et it lt rest ((m0 @ emit rl acc) @ emit line [])
            (Some line) (Some line)
        = Inr ((m0 @ emit rl acc) @ emit line ([] @ accepted_lines et it lt line line rest)
                  @ filter (\<lambda>b. snd b \<noteq> []) (group_spec et it lt rest))"
      using fresh others dist by (rule Cons.IH)
    with True show ?thesis by (simp add: emit_def)
  next
    case False
    have others: "\<forall>l \<in> set rest. active_label et l = ''Role-Label''
        \<longrightarrow> l \<notin> fst ` set m0 \<and> l \<noteq> rl"
      using Cons.prems(2) by simp
    have dist: "distinct (filter (\<lambda>l. active_label et l = ''Role-Label'') rest)"
      using Cons.prems(3) by (simp split: if_splits)
    show ?thesis
    proof (cases "accepts_spec it lt rl pl line")
      case True
      have "get_relevant_blocks_loop et it lt rest (m0 @ emit rl (acc @ [line]))
              (Some rl) (Some line)
        = Inr (m0 @ emit rl ((acc @ [line]) @ accepted_lines et it lt rl line rest)
                  @ filter (\<lambda>b. snd b \<noteq> []) (group_spec et it lt rest))"
        using Cons.prems(1) others dist by (rule Cons.IH)
      moreover obtain m1 v where get: "dd_get (m0 @ emit rl acc) rl = (m1, v)"
        by (cases "dd_get (m0 @ emit rl acc) rl")
      moreover note accept_step[OF Cons.prems(1) get, of line]
      ultimately show ?thesis
        using False True by (simp add: within_threshold_spec)
    next
      case no: False
      have "get_relevant_blocks_loop et it lt rest (m0 @ emit rl acc) (Some rl) (Some pl)
        = Inr (m0 @ emit rl (acc @ accepted_lines et it lt rl pl rest)
                  @ filter (\<lambda>b. snd b \<noteq> []) (group_spec et it lt rest))"
        using Cons.prems(1) others dist by (rule Cons.IH)
      with False no show ?thesis by (simp add: within_threshold_spec)
    qed
  qed
qed

lemma loop_no_block:
  assumes "distinct (filter (\<lambda>l. active_label et l = ''Role-Label'') lines)"
  shows "get_relevant_blocks_loop et it lt lines [] None None
         = Inr (filter (\<lambda>b. snd b \<noteq> []) (group_spec et it lt lines))"
  using assms
proof (induction lines)
  case Nil
  show ?case by simp
next
  case (Cons line rest)
  show ?case
  proof (cases "active_label et line = ''Role-Label''")
    case True
    have "get_relevant_blocks_loop et it lt rest ([] @ emit line []) (Some line) (Some line)
         = Inr ([] @ emit line ([] @ accepted_lines et it lt line line rest)
                  @ filter (\<lambda>b. snd b \<noteq> []) (group_spec et it lt rest))"
      using Cons.prems True by (intro loop_open_block) (auto split: if_splits)
    with True show ?thesis by (simp add: emit_def)
  next
    case False
    with Cons show ?thesis by simp
  qed
qed

text \<open>
  C4, amended: when the rows of \<open>PageLines\<close> and of \<open>ConferencePages\<close> have distinct
  ids, the grouping returns a mapping (it never raises) whose keys are, in order, exactly
  the role-label lines under which at least one content line was accepted, each with the
  non-empty list of its accepted lines; a role label under which no content line was
  accepted is not a key.
\<close>

theorem get_relevant_blocks_keeps_nonempty_blocks:
  assumes "distinct (map line_id (PageLines cur))"
    and "distinct (map fst (ConferencePages cur))"
  shows "get_relevant_blocks cur et conf_id it lt
         = Inr (filter (\<lambda>b. snd b \<noteq> [])
                  (group_spec et it lt (get_relevant_lines cur et conf_id)))"
  unfolding get_relevant_blocks_def
  by (intro loop_no_block distinct_filter distinct_get_relevant_lines assms)

theorem get_relevant_blocks_keeps_nonempty_blocks_witness:
  "distinct (map line_id (PageLines cur_chain))
   \<and> distinct (map fst (ConferencePages cur_chain))
   \<and> group_spec ''gold'' 10 10 (get_relevant_lines cur_chain ''gold'' 7)
       = [(rl_chair, [ln_alice])]
   \<and> get_relevant_blocks cur_chain ''gold'' 7 10 10 = Inr [(rl_chair, [ln_alice])]"
proof -
  have h1: "distinct (map line_id (PageLines cur_chain))"
    by (simp add: cur_chain_def rl_chair_def ln_alice_def ln_mit_def)
  have h2: "distinct (map fst (ConferencePages cur_chain))"
    by (simp add: cur_chain_def)
  have g: "group_spec ''gold'' 10 10 (get_relevant_lines cur_chain ''gold'' 7)
       = [(rl_chair, [ln_alice])]"
    by (simp add: get_relevant_lines_chain)
      (simp add: active_label_def accepts_spec_def rl_chair_def ln_alice_def ln_mit_def)
  from get_relevant_blocks_keeps_nonempty_blocks[OF h1 h2, of "''gold''" 7 10 10] h1 h2 g
  show ?thesis by simp
qed

section \<open>Properties of LineInfoExtractor\<close>

subsection \<open>Entity extraction\<close>

lemma fold_parts:
  "fold (\<lambda>part lp. fold f (tg part) lp) parts m = fold f (concat (map tg parts)) m"
  by (induction parts arbitrary: m) simp_all

lemma fold_last_wins:
  "fold (\<lambda>entity lp. lp(snd entity \<mapsto> fst entity)) es m tag =
     (if filter (\<lambda>e. snd e = tag) es = [] then m tag
      else Some (fst (last (filter (\<lambda>e. snd e = tag) es))))"
  by (induction es rule: rev_induct) simp_all

lemma split_where_nonempty: "split_where p s \<noteq> []"
  by (induction s) (auto split: list.splits)

lemma join_split: "join [c] (py_split c s) = s"
  unfolding py_split_def
proof (induction s)
  case Nil
  show ?case by simp
next
  case (Cons x xs)
  obtain p ps where sp: "split_where (\<lambda>x. x = c) xs = p # ps"
    using split_where_nonempty by (cases "split_where (\<lambda>x. x = c) xs") auto
  show ?case
  proof (cases "x = c")
    case True
    with Cons sp show ?thesis by simp
  next
    case False
    have "join [c] ((x # p) # ps) = x # join [c] (p # ps)"
      by (cases ps) simp_all
    with Cons False sp show ?thesis by simp
  qed
qed

text \<open>
  C1, as stated: of two organizations on one line the first would be kept. The line
  \<open>MIT,NUS\<close> has the fragments \<open>MIT\<close> and \<open>NUS\<close>, each tagged as an organization,
  the first of them \<open>MIT\<close>; the extraction keeps \<open>NUS\<close>.
\<close>

theorem get_line_parts_flair_keeps_later_tag:
  "py_split CHR '','' (line_text ln_two_orgs) = [''MIT'', ''NUS'']
   \<and> concat (map stub_tagger (py_split CHR '','' (line_text ln_two_orgs)))
       = [(''MIT'', ''ORG''), (''NUS'', ''ORG'')]
   \<and> get_line_parts_flair stub_tagger ln_two_orgs ''ORG'' = Some ''NUS''
   \<and> get_line_parts_flair stub_tagger ln_two_orgs ''ORG'' \<noteq> Some ''MIT''"
  by (simp add: get_line_parts_flair_def py_split_def ln_two_orgs_def stub_tagger_def)

text \<open>
  C1, amended: for every tagger and line, the text is split on commas into fragments
  (joining the fragments with commas gives the text back), the tagger is run on every
  fragment in order, and for each tag the text of the last span with that tag is kept; a
  tag without a span has no entry. A later entity of a type that is already filled
  replaces the earlier one.
\<close>

theorem get_line_parts_flair_last_wins:
  "get_line_parts_flair tg line tag =
     (let spans = concat (map tg (py_split CHR '','' (line_text line)));
          tagged = filter (\<lambda>e. snd e = tag) spans
      in if tagged = [] then None else Some (fst (last tagged)))
   \<and> join '','' (py_split CHR '','' (line_text line)) = line_text line"
  by (simp add: get_line_parts_flair_def fold_parts fold_last_wins join_split)

subsection \<open>Rows and identifiers\<close>

lemmas writer_defs = add_person_def add_organization_def add_role_rel_def
  add_affiliation_rel_def update_org_loc_def add_conference_def execute_def apply_stmt_def
  write_transaction_def fetchone_person_def fetchone_organization_def creates_node_def

lemma fold_max_ge: "a \<le> fold max ids (a::int)"
  by (induction ids arbitrary: a) (auto intro: order_trans[OF max.cobounded2])

lemma fold_max_mem: "x \<in> set ids \<Longrightarrow> x \<le> fold max ids (a::int)"
proof (induction ids arbitrary: a)
  case Nil
  then show ?case by simp
next
  case (Cons y ys)
  show ?case
  proof (cases "x = y")
    case True
    have "y \<le> max y a" by simp
    also have "\<dots> \<le> fold max ys (max y a)" by (rule fold_max_ge)
    finally show ?thesis using True by simp
  next
    case False
    with Cons show ?thesis by simp
  qed
qed

lemma next_id_fresh: "next_id ids \<notin> set ids"
proof
  assume "next_id ids \<in> set ids"
  then have "next_id ids \<le> fold max ids 0" by (rule fold_max_mem)
  then show False by (simp add: next_id_def)
qed

lemma find_append:
  "find P (xs @ ys) = (case find P xs of None \<Rightarrow> find P ys | Some x \<Rightarrow> Some x)"
  by (induction xs) simp_all

lemma find_person_after_insert:
  "find (\<lambda>r. snd r = name) (insert_person_row name rows) = Some (person_sql_id rows name, name)"
proof (cases "find (\<lambda>r. snd r = name) rows")
  case None
  then have "name \<notin> snd ` set rows" by (auto simp: find_None_iff)
  with None show ?thesis by (simp add: insert_person_row_def person_sql_id_def find_append)
next
  case (Some r)
  then have "r \<in> set rows" "snd r = name" by (auto simp: find_Some_iff in_set_conv_nth)
  then have "name \<in> snd ` set rows" by force
  with Some \<open>snd r = name\<close> show ?thesis
    by (cases r) (simp add: insert_person_row_def person_sql_id_def)
qed

lemma find_organization_after_insert:
  "\<exists>loc. find (\<lambda>r. fst (snd r) = name) (insert_organization_row name rows)
     = Some (organization_sql_id rows name, name, loc)"
proof (cases "find (\<lambda>r. fst (snd r) = name) rows")
  case None
  then have "name \<notin> (\<lambda>r. fst (snd r)) ` set rows" by (auto simp: find_None_iff)
  with None show ?thesis
    by (simp add: insert_organization_row_def organization_sql_id_def find_append)
next
  case (Some r)
  then have "r \<in> set rows" "fst (snd r) = name" by (auto simp: find_Some_iff in_set_conv_nth)
  then have "name \<in> (\<lambda>r. fst (snd r)) ` set rows" by force
  with Some \<open>fst (snd r) = name\<close> show ?thesis
    by (cases r) (auto simp add: insert_organization_row_def organization_sql_id_def)
qed

lemma person_sql_id_insert_same:
  "person_sql_id (insert_person_row name rows) name = person_sql_id rows name"
  by (simp add: person_sql_id_def[of "insert_person_row name rows"] find_person_after_insert)

lemma distinct_insert_person_row:
  "distinct (map fst rows) \<Longrightarrow> distinct (map fst (insert_person_row name rows))"
  using next_id_fresh[of "map fst rows"] by (simp add: insert_person_row_def)

lemma set_insert_person_row: "set rows \<subseteq> set (insert_person_row name rows)"
  by (auto simp: insert_person_row_def)

lemma person_row_present:
  "(person_sql_id rows name, name) \<in> set (insert_person_row name rows)"
proof -
  have "find (\<lambda>r. snd r = name) (insert_person_row name rows)
      = Some (person_sql_id rows name, name)"
    by (rule find_person_after_insert)
  then show ?thesis by (auto simp: find_Some_iff)
qed

lemma insert_person_row_twice:
  "insert_person_row name (insert_person_row name rows) = insert_person_row name rows"
proof -
  have "name \<in> snd ` set (insert_person_row name rows)"
    using person_row_present[of rows name] by force
  then show ?thesis by (simp add: insert_person_row_def[of name "insert_person_row name rows"])
qed

subsection \<open>The writers on stores that answer\<close>

lemma add_person_no_session:
  assumes "faulty s = []" "session s = None"
  shows "add_person s name =
    Inr ((- 1, person_sql_id (Persons s) name),
         s\<lparr>executed := executed s @ [InsertPerson name, SelectPersonId name],
           Persons := insert_person_row name (Persons s)\<rparr>)"
  using assms by (simp add: writer_defs find_person_after_insert)

lemma add_person_open_session:
  assumes "faulty s = []" "session s = Some Open" "graph_faulty s = []"
  shows "add_person s name =
    Inr ((graph_next s, person_sql_id (Persons s) name),
         s\<lparr>executed := executed s @ [InsertPerson name, SelectPersonId name],
           Persons := insert_person_row name (Persons s),
           graph_log := graph_log s @ [TxFn_create_person name],
           graph_next := graph_next s + 1\<rparr>)"
  using assms by (simp add: writer_defs find_person_after_insert)

text \<open>
  C9. On a store whose person rows have distinct ids and whose statements and
  transactions do not fail, two calls of \<open>add_person\<close> in a row both return, and their
  relational ids are equal exactly when the two names are equal as strings. With equal
  names the second call leaves the table as it is; in every case both names have their row
  under the returned id afterwards.
\<close>

theorem add_person_same_id_iff_same_name:
  assumes "distinct (map fst (Persons s))" and "faulty s = []"
    and "session s = None \<or> (session s = Some Open \<and> graph_faulty s = [])"
  shows "\<exists>g1 i1 s1 g2 i2 s2.
           add_person s a = Inr ((g1, i1), s1) \<and> add_person s1 b = Inr ((g2, i2), s2)
           \<and> (i1 = i2 \<longleftrightarrow> a = b)
           \<and> (a = b \<longrightarrow> Persons s2 = Persons s1)
           \<and> (i1, a) \<in> set (Persons s2) \<and> (i2, b) \<in> set (Persons s2)"
proof -
  let ?P1 = "insert_person_row a (Persons s)"
  let ?P2 = "insert_person_row b ?P1"
  let ?i1 = "person_sql_id (Persons s) a"
  let ?i2 = "person_sql_id ?P1 b"
  have d2: "distinct (map fst ?P2)"
    using assms(1) by (intro distinct_insert_person_row)
  have in1: "(?i1, a) \<in> set ?P2"
    using person_row_present[of "Persons s" a] set_insert_person_row[of ?P1 b] by blast
  have in2: "(?i2, b) \<in> set ?P2" by (rule person_row_present)
  have iff: "?i1 = ?i2 \<longleftrightarrow> a = b"
  proof
    assume "?i1 = ?i2"
    with in1 in2 d2 show "a = b" by (metis eq_key_imp_eq_value)
  next
    assume "a = b"
    then show "?i1 = ?i2" by (simp add: person_sql_id_insert_same)
  qed
  have same: "a = b \<longrightarrow> ?P2 = ?P1"
    by (simp add: insert_person_row_twice)
  from assms(3) show ?thesis
  proof
    assume none: "session s = None"
    show ?thesis
      using iff same in1 in2
      by (simp add: add_person_no_session assms(2) none)
  next
    assume "session s = Some Open \<and> graph_faulty s = []"
    then show ?thesis
      using iff same in1 in2
      by (simp add: add_person_open_session assms(2))
  qed
qed

theorem add_person_same_id_iff_same_name_witness:
  "distinct (map fst (Persons store_empty)) \<and> faulty store_empty = []
   \<and> session store_empty = None
   \<and> (\<exists>s1 s2. add_person store_empty ''Alice'' = Inr ((- 1, 1), s1)
               \<and> add_person s1 ''alice'' = Inr ((- 1, 2), s2)
               \<and> Persons s2 = [(1, ''Alice''), (2, ''alice'')])"
proof -
  have h1: "distinct (map fst (Persons store_empty))" by (simp add: store_empty_def)
  have h2: "faulty store_empty = []" by (simp add: store_empty_def)
  have h3: "session store_empty = None" by (simp add: store_empty_def)
  from add_person_same_id_iff_same_name[OF h1 h2 disjI1[OF h3], of "''Alice''" "''alice''"]
  show ?thesis
    by (simp add: store_empty_def writer_defs insert_person_row_def next_id_def)
qed

lemma ready_cases:
  assumes "ready s"
  obtains (relational) c where "faulty s = []" "sql_conf_id s = Some c" "session s = None"
  | (graph) c n where "faulty s = []" "sql_conf_id s = Some c" "session s = Some Open"
      "graph_faulty s = []" "n4j_conf_id s = Some n"
proof -
  from assms have f: "faulty s = []" and c: "sql_conf_id s \<noteq> None" and g: "graph_ready s"
    by (simp_all add: ready_def)
  from c obtain cid where cid: "sql_conf_id s = Some cid"
    by (cases "sql_conf_id s") simp_all
  show thesis
  proof (cases "session s = None")
    case True
    from f cid True show thesis by (rule relational)
  next
    case False
    with g have op: "session s = Some Open" and gf: "graph_faulty s = []"
      and n: "n4j_conf_id s \<noteq> None"
      by (simp_all add: graph_ready_def)
    from n obtain nid where nid: "n4j_conf_id s = Some nid"
      by (cases "n4j_conf_id s") simp_all
    from f cid op gf nid show thesis by (rule graph)
  qed
qed

lemma add_role_rel_no_session:
  assumes "faulty s = []" "session s = None" "sql_conf_id s = Some c"
  shows "add_role_rel s pids role =
    Inr ((), s\<lparr>executed := executed s @ [InsertPersonRole role c (snd pids)],
               PersonRole := insert_if_absent (role, c, snd pids) (PersonRole s)\<rparr>)"
  using assms by (simp add: writer_defs)

lemma add_organization_no_session:
  assumes "faulty s = []" "session s = None"
  shows "add_organization s name =
    Inr ((- 1, organization_sql_id (Organizations s) name),
         s\<lparr>executed := executed s @ [InsertOrganization name, SelectOrganizationId name],
           Organizations := insert_organization_row name (Organizations s)\<rparr>)"
proof -
  from find_organization_after_insert[of name "Organizations s"]
  obtain loc where "find (\<lambda>r. fst (snd r) = name) (insert_organization_row name (Organizations s))
     = Some (organization_sql_id (Organizations s) name, name, loc)"
    by (rule exE)
  with assms show ?thesis by (simp add: writer_defs)
qed

lemma add_affiliation_rel_no_session:
  assumes "faulty s = []" "session s = None"
  shows "add_affiliation_rel s pids oids =
    Inr ((), s\<lparr>executed := executed s @ [InsertPersonOrganization (snd oids) (snd pids)],
               PersonOrganization :=
                 insert_if_absent (snd oids, snd pids) (PersonOrganization s)\<rparr>)"
  using assms by (simp add: writer_defs)

lemma add_role_rel_open_session:
  assumes "faulty s = []" "session s = Some Open" "graph_faulty s = []"
    "sql_conf_id s = Some c" "n4j_conf_id s = Some n"
  shows "add_role_rel s pids role =
    Inr ((), s\<lparr>executed := executed s @ [InsertPersonRole role c (snd pids)],
               PersonRole := insert_if_absent (role, c, snd pids) (PersonRole s),
               graph_log := graph_log s @ [TxFn_create_role_rel (fst pids) role n]\<rparr>)"
  using assms by (simp add: writer_defs)

lemma add_organization_open_session:
  assumes "faulty s = []" "session s = Some Open" "graph_faulty s = []"
  shows "add_organization s name =
    Inr ((graph_next s, organization_sql_id (Organizations s) name),
         s\<lparr>executed := executed s @ [InsertOrganization name, SelectOrganizationId name],
           Organizations := insert_organization_row name (Organizations s),
           graph_log := graph_log s @ [TxFn_create_organization name],
           graph_next := graph_next s + 1\<rparr>)"
proof -
  from find_organization_after_insert[of name "Organizations s"]
  obtain loc where "find (\<lambda>r. fst (snd r) = name) (insert_organization_row name (Organizations s))
     = Some (organization_sql_id (Organizations s) name, name, loc)"
    by (rule exE)
  with assms show ?thesis by (simp add: writer_defs)
qed

lemma add_affiliation_rel_open_session:
  assumes "faulty s = []" "session s = Some Open" "graph_faulty s = []"
  shows "add_affiliation_rel s pids oids =
    Inr ((), s\<lparr>executed := executed s @ [InsertPersonOrganization (snd oids) (snd pids)],
               PersonOrganization :=
                 insert_if_absent (snd oids, snd pids) (PersonOrganization s),
               graph_log := graph_log s @ [TxFn_create_affiliation_rel (fst pids) (snd oids)]\<rparr>)"
  using assms by (simp add: writer_defs)

subsection \<open>Pairing a person with an affiliation\<close>

lemma process_pair_emit:
  "process_pair tg s p a rl
     = emit_fact s (line_text rl) (Some (line_text p))
         (nonempty (get_line_parts_flair tg a ''ORG''))
         (nonempty (get_line_parts_flair tg a ''LOC''))"
  by (simp add: process_pair_def emit_fact_def emit_person_def emit_organization_def
      emit_affiliation_def nonempty_def truthy_def split: sum.split option.split)

lemma process_complex_emit:
  "process_complex tg s line rl
     = emit_fact s (line_text rl) (nonempty (get_line_parts_flair tg line ''PER''))
         (nonempty (get_line_parts_flair tg line ''ORG''))
         (nonempty (get_line_parts_flair tg line ''LOC''))"
  by (simp add: process_complex_def emit_fact_def emit_person_def emit_organization_def
      emit_affiliation_def nonempty_def truthy_def split: sum.split option.split)


lemma texts:
  "line_text rl_chair = ''PC Chair''" "line_text ln_alice = ''Alice''"
  "line_text rl_organizer = ''Organizer''" "line_text ln_bob = ''Bob''"
  "line_text ln_carol = ''Carol''" "line_text rl_publicity = ''Publicity''"
  "line_text ln_dave = ''Dave''" "line_text ln_mit = ''MIT''" "line_text ln_nus = ''NUS''"
  by (simp_all add: rl_chair_def ln_alice_def rl_organizer_def ln_bob_def ln_carol_def
      rl_publicity_def ln_dave_def ln_mit_def ln_nus_def)

lemma labels:
  "active_label ''gold'' ln_alice = ''Person''" "active_label ''gold'' ln_mit = ''Affiliation''"
  "active_label ''gold'' ln_bob = ''Person''" "active_label ''gold'' ln_nus = ''Affiliation''"
  "active_label ''gold'' ln_carol = ''Person''" "active_label ''gold'' ln_dave = ''Person''"
  by (simp_all add: active_label_def ln_alice_def ln_bob_def ln_carol_def ln_dave_def
      ln_mit_def ln_nus_def)

lemma parts_mit: "get_line_parts_flair stub_tagger ln_mit = [''ORG'' \<mapsto> ''MIT'']"
  by (simp add: get_line_parts_flair_def py_split_def stub_tagger_def ln_mit_def)

lemma parts_nus: "get_line_parts_flair stub_tagger ln_nus = [''ORG'' \<mapsto> ''NUS'']"
  by (simp add: get_line_parts_flair_def py_split_def stub_tagger_def ln_nus_def)

lemmas eval_defs = process_pair_def truthy_def writer_defs insert_person_row_def
  insert_organization_row_def insert_if_absent_def next_id_def texts labels parts_mit parts_nus

text \<open>
  C7. On an extractor whose stores answer, for every tagger that tags \<open>MIT\<close> as an
  organization, \<open>process_block\<close> on the role label \<open>PC Chair\<close> and the content lines
  \<open>Person Alice\<close>, \<open>Affiliation MIT\<close> makes the writer calls of exactly one fact, with
  the person Alice, the organization MIT and no location: one person-role relation and one
  affiliation relation. It returns without error, and both pending lines are \<open>None\<close> at
  the end of its loop. The relational statements executed are one insertion and selection
  of the person, one person-role insertion for Alice as \<open>PC Chair\<close> in the conference, one
  insertion and selection of the organization, and one affiliation insertion for Alice and
  MIT, in this order; the tables change accordingly. With an open graph session the graph
  log gains the person node, one role relationship, the organization node and one
  affiliation relationship; the arguments of the last are the ones that
  \<open>add_affiliation_rel\<close> passes on, the node of Alice and the relational id of MIT (the
  subject of C2).
\<close>

theorem pair_emits_one_role_and_one_affiliation:
  assumes "ready s"
    and "flair_tagger ''MIT'' = [(''MIT'', ''ORG'')]"
    and "line_text role_label = ''PC Chair''"
    and "line_text person = ''Alice''"
    and "active_label (extraction_type s) person = ''Person''"
    and "line_text affiliation = ''MIT''"
    and "active_label (extraction_type s) affiliation = ''Affiliation''"
  shows "process_block flair_tagger s role_label [person, affiliation]
           = emit_fact s ''PC Chair'' (Some ''Alice'') (Some ''MIT'') None
         \<and> (\<exists>s'. process_block flair_tagger s role_label [person, affiliation] = Inr ((), s')
          \<and> process_block_loop flair_tagger role_label [person, affiliation] None None s
               = Inr ((None, None), s')
          \<and> executed s' = executed s @
               [InsertPerson ''Alice'', SelectPersonId ''Alice'',
                InsertPersonRole ''PC Chair'' (the (sql_conf_id s))
                  (person_sql_id (Persons s) ''Alice''),
                InsertOrganization ''MIT'', SelectOrganizationId ''MIT'',
                InsertPersonOrganization (organization_sql_id (Organizations s) ''MIT'')
                  (person_sql_id (Persons s) ''Alice'')]
          \<and> Persons s' = insert_person_row ''Alice'' (Persons s)
          \<and> PersonRole s' =
               insert_if_absent (''PC Chair'', the (sql_conf_id s),
                                 person_sql_id (Persons s) ''Alice'') (PersonRole s)
          \<and> Organizations s' = insert_organization_row ''MIT'' (Organizations s)
          \<and> PersonOrganization s' =
               insert_if_absent (organization_sql_id (Organizations s) ''MIT'',
                                 person_sql_id (Persons s) ''Alice'') (PersonOrganization s)
          \<and> graph_log s' = graph_log s @
               (if session s = None then []
                else [TxFn_create_person ''Alice'',
                      TxFn_create_role_rel (graph_next s) ''PC Chair'' (the (n4j_conf_id s)),
                      TxFn_create_organization ''MIT'',
                      TxFn_create_affiliation_rel (graph_next s)
                        (organization_sql_id (Organizations s) ''MIT'')]))"
proof -
  have parts: "get_line_parts_flair flair_tagger affiliation = [''ORG'' \<mapsto> ''MIT'']"
    using assms(2,6) by (simp add: get_line_parts_flair_def py_split_def)
  have pair: "process_pair flair_tagger s person affiliation role_label
      = emit_fact s ''PC Chair'' (Some ''Alice'') (Some ''MIT'') None"
    using assms(3,4) by (simp add: process_pair_emit parts nonempty_def truthy_def)
  have calls: "process_block flair_tagger s role_label [person, affiliation]
           = emit_fact s ''PC Chair'' (Some ''Alice'') (Some ''MIT'') None"
    using assms(5,7) by (simp add: process_block_def pair split: sum.split)
  have stores: "\<exists>s'. process_block flair_tagger s role_label [person, affiliation] = Inr ((), s')
          \<and> process_block_loop flair_tagger role_label [person, affiliation] None None s
               = Inr ((None, None), s')
          \<and> executed s' = executed s @
               [InsertPerson ''Alice'', SelectPersonId ''Alice'',
                InsertPersonRole ''PC Chair'' (the (sql_conf_id s))
                  (person_sql_id (Persons s) ''Alice''),
                InsertOrganization ''MIT'', SelectOrganizationId ''MIT'',
                InsertPersonOrganization (organization_sql_id (Organizations s) ''MIT'')
                  (person_sql_id (Persons s) ''Alice'')]
          \<and> Persons s' = insert_person_row ''Alice'' (Persons s)
          \<and> PersonRole s' =
               insert_if_absent (''PC Chair'', the (sql_conf_id s),
                                 person_sql_id (Persons s) ''Alice'') (PersonRole s)
          \<and> Organizations s' = insert_organization_row ''MIT'' (Organizations s)
          \<and> PersonOrganization s' =
               insert_if_absent (organization_sql_id (Organizations s) ''MIT'',
                                 person_sql_id (Persons s) ''Alice'') (PersonOrganization s)
          \<and> graph_log s' = graph_log s @
               (if session s = None then []
                else [TxFn_create_person ''Alice'',
                      TxFn_create_role_rel (graph_next s) ''PC Chair'' (the (n4j_conf_id s)),
                      TxFn_create_organization ''MIT'',
                      TxFn_create_affiliation_rel (graph_next s)
                        (organization_sql_id (Organizations s) ''MIT'')])"
    using assms(1)
  proof (cases rule: ready_cases)
    case relational
    then show ?thesis
      using assms(3-7)
      by (simp add: process_block_def process_pair_def parts truthy_def add_person_no_session
          add_role_rel_no_session add_organization_no_session add_affiliation_rel_no_session)
  next
    case graph
    then show ?thesis
      using assms(3-7)
      by (simp add: process_block_def process_pair_def parts truthy_def
          add_person_open_session add_role_rel_open_session add_organization_open_session
          add_affiliation_rel_open_session)
  qed
  from calls stores show ?thesis by (rule conjI)
qed

theorem pair_emits_one_role_and_one_affiliation_witness:
  "ready store_graph \<and> stub_tagger ''MIT'' = [(''MIT'', ''ORG'')]
   \<and> line_text rl_chair = ''PC Chair''
   \<and> line_text ln_alice = ''Alice''
   \<and> active_label (extraction_type store_graph) ln_alice = ''Person''
   \<and> line_text ln_mit = ''MIT''
   \<and> active_label (extraction_type store_graph) ln_mit = ''Affiliation''
   \<and> (\<exists>s'. process_block stub_tagger store_graph rl_chair [ln_alice, ln_mit] = Inr ((), s')
          \<and> process_block_loop stub_tagger rl_chair [ln_alice, ln_mit] None None store_graph
               = Inr ((None, None), s')
          \<and> executed s' = [InsertPerson ''Alice'', SelectPersonId ''Alice'',
                InsertPersonRole ''PC Chair'' 7 1, InsertOrganization ''MIT'',
                SelectOrganizationId ''MIT'', InsertPersonOrganization 1 1]
          \<and> Persons s' = [(1, ''Alice'')]
          \<and> PersonRole s' = [(''PC Chair'', 7, 1)]
          \<and> Organizations s' = [(1, ''MIT'', None)]
          \<and> PersonOrganization s' = [(1, 1)]
          \<and> graph_log s' = [TxFn_create_person ''Alice'',
                TxFn_create_role_rel 100 ''PC Chair'' 99, TxFn_create_organization ''MIT'',
                TxFn_create_affiliation_rel 100 1])"
proof -
  have h1: "ready store_graph"
    by (simp add: ready_def graph_ready_def store_graph_def store_empty_def)
  have h2: "stub_tagger ''MIT'' = [(''MIT'', ''ORG'')]" by (simp add: stub_tagger_def)
  have ty: "extraction_type store_graph = ''gold''"
    by (simp add: store_graph_def store_empty_def)
  have h5: "active_label (extraction_type store_graph) ln_alice = ''Person''"
    by (simp add: ty labels)
  have h7: "active_label (extraction_type store_graph) ln_mit = ''Affiliation''"
    by (simp add: ty labels)
  have ev: "sql_conf_id store_graph = Some 7" "n4j_conf_id store_graph = Some 99"
    "session store_graph = Some Open" "graph_next store_graph = 100"
    "graph_log store_graph = []" "Persons store_graph = []"
    "Organizations store_graph = []" "PersonRole store_graph = []"
    "PersonOrganization store_graph = []" "executed store_graph = []"
    by (simp_all add: store_graph_def store_empty_def)
  from pair_emits_one_role_and_one_affiliation[where s = store_graph
      and flair_tagger = stub_tagger and role_label = rl_chair and person = ln_alice
      and affiliation = ln_mit, OF h1 h2 texts(1) texts(2) h5 texts(8) h7, THEN conjunct2]
  show ?thesis
    using h1 h2 h5 h7
    by (simp add: ev texts person_sql_id_def organization_sql_id_def insert_person_row_def
        insert_organization_row_def insert_if_absent_def next_id_def)
qed

text \<open>
  C2. With an open graph session, \<open>add_affiliation_rel\<close> called with the person ids
  \<open>(100, 1)\<close> and the organization ids \<open>(101, 1)\<close> (graph id first, relational id
  second) writes the graph relationship between the person node 100 and the number 1, the
  relational id of the organization, not its graph id 101; \<open>update_org_loc\<close> on the same
  organization ids addresses the graph node 101. In \<open>process_pair\<close> the organization
  node is created with the graph id 101 and the relationship refers to 1.
\<close>

theorem add_affiliation_rel_graph_gets_relational_org_id:
  "graph_log (snd (projr (add_affiliation_rel store_graph (100, 1) (101, 1))))
     = [TxFn_create_affiliation_rel 100 1]
   \<and> graph_log (snd (projr (update_org_loc store_graph (101, 1) ''Cambridge'')))
     = [TxFn_update_org_loc 101 ''Cambridge'']
   \<and> fst (projr (add_organization (store_graph\<lparr>graph_next := 101\<rparr>) ''MIT'')) = (101, 1)
   \<and> graph_log (snd (projr (process_pair stub_tagger store_graph ln_alice ln_mit rl_chair)))
     = [TxFn_create_person ''Alice'', TxFn_create_role_rel 100 ''PC Chair'' 99,
        TxFn_create_organization ''MIT'', TxFn_create_affiliation_rel 100 1]"
  by (simp add: eval_defs store_graph_def store_empty_def)

subsection \<open>The writes of a fact\<close>

lemma run_actions_append:
  "run_actions s (xs @ ys)
     = (case run_actions s xs of Inl e \<Rightarrow> Inl e | Inr (u, s1) \<Rightarrow> run_actions s1 ys)"
  by (induction s xs rule: run_actions.induct) (simp_all split: sum.split)

lemma execute_frame:
  assumes "execute s st = Inr (u, s1)"
  shows "faulty s1 = faulty s" "session s1 = session s" "graph_faulty s1 = graph_faulty s"
    "sql_conf_id s1 = sql_conf_id s" "n4j_conf_id s1 = n4j_conf_id s"
    "extraction_type s1 = extraction_type s" "graph_next s1 = graph_next s"
    "executed s1 = executed s @ [st]" "graph_log s1 = graph_log s"
  using assms by (cases st; simp add: execute_def apply_stmt_def split: if_splits; fastforce)+

lemma write_transaction_frame:
  assumes "write_transaction s t = Inr (u, s1)"
  shows "faulty s1 = faulty s" "session s1 = session s" "graph_faulty s1 = graph_faulty s"
    "sql_conf_id s1 = sql_conf_id s" "n4j_conf_id s1 = n4j_conf_id s"
    "extraction_type s1 = extraction_type s" "executed s1 = executed s"
    "Persons s1 = Persons s" "Organizations s1 = Organizations s"
    "PersonRole s1 = PersonRole s" "PersonOrganization s1 = PersonOrganization s"
  using assms by (simp_all add: write_transaction_def split: if_splits; fastforce)+

lemma execute_ok: "action_ok s (Sql st) \<Longrightarrow> \<exists>s1. execute s st = Inr ((), s1)"
  by (simp add: action_ok_def execute_def)

lemma execute_fails: "\<not> action_ok s (Sql st) \<Longrightarrow> execute s st = Inl (StoreWriteFailure, s)"
  by (simp add: action_ok_def execute_def)

lemma write_transaction_ok:
  "action_ok s (Graph t) \<Longrightarrow> \<exists>g s1. write_transaction s t = Inr (g, s1)"
  by (simp add: action_ok_def write_transaction_def)

lemma write_transaction_fails:
  "\<not> action_ok s (Graph t) \<Longrightarrow> write_transaction s t = Inl (GraphWriteFailure, s)"
  by (auto simp add: action_ok_def write_transaction_def)

lemma action_ok_after_execute:
  "execute s st = Inr (u, s1) \<Longrightarrow> action_ok s1 = action_ok s"
  by (simp add: fun_eq_iff action_ok_def execute_frame split: action.split)

lemma action_ok_after_write:
  "write_transaction s t = Inr (u, s1) \<Longrightarrow> action_ok s1 = action_ok s"
  by (simp add: fun_eq_iff action_ok_def write_transaction_frame split: action.split)

lemma run_actions_first_failure:
  "\<exists>s'. run_actions s (takeWhile (action_ok s) acts) = Inr ((), s')
        \<and> run_actions s acts
            = (if list_all (action_ok s) acts then Inr ((), s')
               else Inl (action_error (hd (dropWhile (action_ok s) acts)), s'))
        \<and> executed s' = executed s @ sql_of (takeWhile (action_ok s) acts)"
proof (induction acts arbitrary: s)
  case Nil
  show ?case by (simp add: sql_of_def)
next
  case (Cons a acts)
  show ?case
  proof (cases "action_ok s a")
    case False
    then show ?thesis
      by (cases a) (simp_all add: execute_fails write_transaction_fails action_error_def sql_of_def)
  next
    case True
    show ?thesis
    proof (cases a)
      case (Sql st)
      with True obtain s1 where ex: "execute s st = Inr ((), s1)"
        using execute_ok by blast
      note ok = action_ok_after_execute[OF ex]
      from Cons.IH[of s1] obtain s' where
        "run_actions s1 (takeWhile (action_ok s1) acts) = Inr ((), s')"
        "run_actions s1 acts
            = (if list_all (action_ok s1) acts then Inr ((), s')
               else Inl (action_error (hd (dropWhile (action_ok s1) acts)), s'))"
        "executed s' = executed s1 @ sql_of (takeWhile (action_ok s1) acts)"
        by blast
      with True Sql ex ok show ?thesis
        by (simp add: execute_frame(8)[OF ex] sql_of_def)
    next
      case (Graph t)
      with True obtain g s1 where ex: "write_transaction s t = Inr (g, s1)"
        using write_transaction_ok by blast
      note ok = action_ok_after_write[OF ex]
      from Cons.IH[of s1] obtain s' where
        "run_actions s1 (takeWhile (action_ok s1) acts) = Inr ((), s')"
        "run_actions s1 acts
            = (if list_all (action_ok s1) acts then Inr ((), s')
               else Inl (action_error (hd (dropWhile (action_ok s1) acts)), s'))"
        "executed s' = executed s1 @ sql_of (takeWhile (action_ok s1) acts)"
        by blast
      with True Graph ex ok show ?thesis
        by (simp add: write_transaction_frame(7)[OF ex] sql_of_def)
    qed
  qed
qed

lemma emit_person_run:
  assumes "sql_conf_id s \<noteq> None" and "session s \<noteq> None \<longrightarrow> n4j_conf_id s \<noteq> None"
  shows "emit_person s role person
       = (case run_actions s (person_actions s role person) of
            Inl e \<Rightarrow> Inl e
          | Inr (u, s2) \<Rightarrow>
              Inr (map_option (\<lambda>name. (if session s \<noteq> None then graph_next s else - 1,
                                       person_sql_id (Persons s) name)) person, s2))"
proof (cases person)
  case None
  then show ?thesis by (simp add: emit_person_def person_actions_def)
next
  case (Some n)
  from assms(1) obtain c where c: "sql_conf_id s = Some c" by (cases "sql_conf_id s") simp_all
  show ?thesis
  proof (cases "session s = None")
    case True
    with Some c show ?thesis
      by (simp add: emit_person_def person_actions_def writer_defs graph_part_def
          find_person_after_insert)
  next
    case False
    with assms(2) obtain nc where "n4j_conf_id s = Some nc"
      by (cases "n4j_conf_id s") simp_all
    with False Some c show ?thesis
      by (simp add: emit_person_def person_actions_def writer_defs graph_part_def
          find_person_after_insert)
  qed
qed

lemma person_actions_frame:
  assumes "run_actions s (person_actions s role person) = Inr (u, s2)"
  shows "Organizations s2 = Organizations s \<and> session s2 = session s
    \<and> sql_conf_id s2 = sql_conf_id s \<and> n4j_conf_id s2 = n4j_conf_id s
    \<and> graph_next s2 = (if person = None \<or> session s = None then graph_next s
                        else graph_next s + 1)
    \<and> (\<forall>name. person = Some name \<longrightarrow>
          (person_sql_id (Persons s) name, name) \<in> set (Persons s2))"
proof (cases person)
  case None
  with assms show ?thesis by (simp add: person_actions_def)
next
  case (Some n)
  have present: "(person_sql_id (Persons s) n, n) \<in> set (insert_person_row n (Persons s))"
    by (rule person_row_present)
  from assms Some present show ?thesis
    by (cases "session s = None")
      (simp_all add: person_actions_def graph_part_def execute_def write_transaction_def
        apply_stmt_def creates_node_def split: if_splits, fastforce+)
qed

lemma emit_organization_run:
  "emit_organization s org loc
     = (case run_actions s (organization_actions s (graph_next s) org loc) of
          Inl e \<Rightarrow> Inl e
        | Inr (u, s4) \<Rightarrow>
            Inr (map_option (\<lambda>organization.
                               (if session s \<noteq> None then graph_next s else - 1,
                                organization_sql_id (Organizations s) organization)) org, s4))"
proof (cases org)
  case None
  then show ?thesis by (simp add: emit_organization_def organization_actions_def)
next
  case (Some organization)
  from find_organization_after_insert[of organization "Organizations s"]
  obtain loc0 where found:
    "find (\<lambda>r. fst (snd r) = organization)
       (insert_organization_row organization (Organizations s))
       = Some (organization_sql_id (Organizations s) organization, organization, loc0)"
    by (rule exE)
  show ?thesis
  proof (cases "session s = None")
    case True
    with found Some show ?thesis
      by (cases loc)
        (simp_all add: emit_organization_def organization_actions_def writer_defs graph_part_def)
  next
    case False
    with found Some show ?thesis
      by (cases loc)
        (simp_all add: emit_organization_def organization_actions_def writer_defs graph_part_def)
  qed
qed

lemma organization_actions_cong:
  assumes "session s2 = session s" and "Organizations s2 = Organizations s"
    and "session s \<noteq> None \<longrightarrow> go2 = go"
  shows "organization_actions s2 go2 org loc = organization_actions s go org loc"
  using assms
  by (cases "session s = None")
    (simp_all add: organization_actions_def graph_part_def split: option.split)

lemma run_actions_session:
  "run_actions s acts = Inr (u, s') \<Longrightarrow> session s' = session s"
proof (induction s acts rule: run_actions.induct)
  case (1 s)
  then show ?case by simp
next
  case (2 s st rest)
  from "2.prems" obtain s1 where ex: "execute s st = Inr ((), s1)"
    and rest: "run_actions s1 rest = Inr (u, s')"
    by (auto split: sum.splits)
  from "2.IH"[OF ex refl rest] execute_frame(2)[OF ex] show ?case by simp
next
  case (3 s t rest)
  from "3.prems" obtain g s1 where ex: "write_transaction s t = Inr (g, s1)"
    and rest: "run_actions s1 rest = Inr (u, s')"
    by (auto split: sum.splits)
  from "3.IH"[OF ex refl rest] write_transaction_frame(2)[OF ex] show ?case by simp
qed

lemma emit_fact_run:
  assumes "sql_conf_id s \<noteq> None" and "session s \<noteq> None \<longrightarrow> n4j_conf_id s \<noteq> None"
  shows "emit_fact s role person org loc = run_actions s (fact_actions s role person org loc)"
proof (cases "run_actions s (person_actions s role person)")
  case (Inl e)
  then show ?thesis
    by (simp add: emit_fact_def fact_actions_def run_actions_append
        emit_person_run[OF assms])
next
  case (Inr r)
  obtain u s2 where r: "r = (u, s2)" by (cases r)
  from Inr r have run: "run_actions s (person_actions s role person) = Inr (u, s2)" by simp
  note fr = person_actions_frame[OF run]
  let ?go = "if person = None then graph_next s else graph_next s + 1"
  have oa: "organization_actions s2 (graph_next s2) org loc
      = organization_actions s ?go org loc"
    using fr by (intro organization_actions_cong) simp_all
  show ?thesis
  proof (cases "run_actions s2 (organization_actions s ?go org loc)")
    case inl: (Inl e)
    with run oa show ?thesis
      by (simp add: emit_fact_def fact_actions_def run_actions_append
          emit_person_run[OF assms] emit_organization_run)
  next
    case inr: (Inr r4)
    obtain u4 s4 where r4: "r4 = (u4, s4)" by (cases r4)
    from inr r4 have run4: "run_actions s2 (organization_actions s ?go org loc) = Inr (u4, s4)"
      by simp
    have s4: "session s4 = session s"
      using run_actions_session[OF run4] fr by simp
    let ?P = "map_option (\<lambda>name. (if session s \<noteq> None then graph_next s else - 1,
                                    person_sql_id (Persons s) name)) person"
    let ?O = "map_option (\<lambda>organization.
                            (if session s2 \<noteq> None then graph_next s2 else - 1,
                             organization_sql_id (Organizations s2) organization)) org"
    have e: "emit_fact s role person org loc = emit_affiliation s4 ?P ?O"
      using run run4 oa
      by (simp add: emit_fact_def emit_person_run[OF assms] emit_organization_run)
    have f: "run_actions s (fact_actions s role person org loc)
        = run_actions s4 (affiliation_actions s person org)"
      using run run4 by (simp add: fact_actions_def run_actions_append)
    have g: "emit_affiliation s4 ?P ?O = run_actions s4 (affiliation_actions s person org)"
      using fr s4
      by (cases person; cases org; cases "session s = None")
        (simp_all add: emit_affiliation_def affiliation_actions_def writer_defs graph_part_def)
    from e f g show ?thesis by simp
  qed
qed

lemma line_fails:
  assumes "sql_conf_id s \<noteq> None" and "session s \<noteq> None \<longrightarrow> n4j_conf_id s \<noteq> None"
    and "run_actions s (line_actions tg rl line u_person u_aff s) = Inl e"
  shows "process_block_loop tg rl [line] u_person u_aff s = Inl e"
  using assms(3)
  by (simp add: line_actions_def pair_actions_def complex_actions_def Let_def
      process_pair_emit process_complex_emit emit_fact_run[OF assms(1,2)]
      split: if_splits option.splits)

lemma graph_part_ok: "graph_ready s \<Longrightarrow> list_all (action_ok s) (graph_part s t)"
  by (simp add: graph_ready_def graph_part_def action_ok_def split: if_splits)

lemma graphs_ok_append: "graphs_ok s (xs @ ys) = (graphs_ok s xs \<and> graphs_ok s ys)"
  by (simp add: graphs_ok_def)

lemma graphs_ok_graph_part:
  "graph_ready s \<Longrightarrow>
     list_all (\<lambda>a. case a of Sql st \<Rightarrow> True | Graph t \<Rightarrow> action_ok s a) (graph_part s t)"
  by (simp add: graph_ready_def graph_part_def action_ok_def split: if_splits)

lemma graphs_ok_fact: "graph_ready s \<Longrightarrow> graphs_ok s (fact_actions s role person org loc)"
  by (simp add: fact_actions_def person_actions_def organization_actions_def
      affiliation_actions_def graphs_ok_def graphs_ok_graph_part split: option.split)

lemma graphs_ok_line: "graph_ready s \<Longrightarrow> graphs_ok s (line_actions tg rl line u_person u_aff s)"
  using graphs_ok_fact[of s]
  by (simp add: line_actions_def pair_actions_def complex_actions_def Let_def
      split: option.split)
    (simp add: graphs_ok_def)

lemma action_ok_simps:
  "action_ok s (Sql st) = (st \<notin> set (faulty s))"
  "action_ok s (Graph t) = (session s = Some Open \<and> t \<notin> set (graph_faulty s))"
  by (simp_all add: action_ok_def)

lemma sql_of_simps:
  "sql_of [] = []" "sql_of (Sql st # acts) = st # sql_of acts"
  "sql_of (Graph t # acts) = sql_of acts"
  by (simp_all add: sql_of_def)

lemma graphs_ok_Cons:
  "graphs_ok s (a # acts)
     = ((case a of Sql st \<Rightarrow> True | Graph t \<Rightarrow> action_ok s a) \<and> graphs_ok s acts)"
  by (simp add: graphs_ok_def)

lemma sql_prefix:
  "graphs_ok s acts \<Longrightarrow>
     sql_of (takeWhile (action_ok s) acts)
       = takeWhile (\<lambda>st. st \<notin> set (faulty s)) (sql_of acts)"
proof (induction acts)
  case Nil
  show ?case by (simp add: sql_of_simps)
next
  case (Cons a acts)
  then have "sql_of (takeWhile (action_ok s) acts)
       = takeWhile (\<lambda>st. st \<notin> set (faulty s)) (sql_of acts)"
    by (simp add: graphs_ok_Cons)
  with Cons.prems show ?case
    by (cases a) (simp_all add: sql_of_simps action_ok_simps graphs_ok_Cons)
qed

lemma sql_all_ok:
  "graphs_ok s acts \<Longrightarrow>
     list_all (action_ok s) acts = list_all (\<lambda>st. st \<notin> set (faulty s)) (sql_of acts)"
proof (induction acts)
  case Nil
  show ?case by (simp add: sql_of_simps)
next
  case (Cons a acts)
  then have "list_all (action_ok s) acts
      = list_all (\<lambda>st. st \<notin> set (faulty s)) (sql_of acts)"
    by (simp add: graphs_ok_Cons)
  with Cons.prems show ?case
    by (cases a) (simp_all add: sql_of_simps action_ok_simps graphs_ok_Cons)
qed

lemma first_failure_is_sql:
  "graphs_ok s acts \<Longrightarrow> \<not> list_all (action_ok s) acts
     \<Longrightarrow> action_error (hd (dropWhile (action_ok s) acts)) = StoreWriteFailure"
proof (induction acts)
  case Nil
  then show ?case by simp
next
  case (Cons a acts)
  show ?case
  proof (cases "action_ok s a")
    case True
    with Cons show ?thesis by (simp add: graphs_ok_Cons)
  next
    case False
    with Cons.prems(1) show ?thesis
      by (cases a) (simp_all add: action_error_def graphs_ok_Cons)
  qed
qed

subsection \<open>Failures of the relational store\<close>

lemma process_blocks_append:
  "process_blocks tg s pre = Inr ((), s1)
     \<Longrightarrow> process_blocks tg s (pre @ rest) = process_blocks tg s1 rest"
proof (induction pre arbitrary: s)
  case Nil
  then show ?case by simp
next
  case (Cons b pre)
  obtain rl content where b: "b = (rl, content)" by (cases b)
  with Cons.prems obtain s0 where s0: "process_block tg s rl content = Inr ((), s0)"
    and rest: "process_blocks tg s0 pre = Inr ((), s1)"
    by (auto split: sum.splits)
  from Cons.IH[OF rest] b s0 show ?case by simp
qed

lemma process_block_loop_step:
  "process_block_loop tg rl (line # rest) u_person u_aff s
     = (case process_block_loop tg rl [line] u_person u_aff s of
          Inl e \<Rightarrow> Inl e
        | Inr (u, s') \<Rightarrow> process_block_loop tg rl rest (fst u) (snd u) s')"
  by (simp add: Let_def split: sum.split option.split)

lemma process_block_loop_append:
  "process_block_loop tg rl before u_person u_aff s = Inr ((u_person', u_aff'), s')
     \<Longrightarrow> process_block_loop tg rl (before @ rest) u_person u_aff s
           = process_block_loop tg rl rest u_person' u_aff' s'"
proof (induction before arbitrary: u_person u_aff s)
  case Nil
  then show ?case by simp
next
  case (Cons line before)
  from Cons.prems obtain u s0 where
    first: "process_block_loop tg rl [line] u_person u_aff s = Inr (u, s0)"
    and more: "process_block_loop tg rl before (fst u) (snd u) s0 = Inr ((u_person', u_aff'), s')"
    by (subst (asm) process_block_loop_step) (auto split: sum.splits)
  have "process_block_loop tg rl ((line # before) @ rest) u_person u_aff s
      = process_block_loop tg rl (before @ rest) (fst u) (snd u) s0"
    using first by (simp only: append_Cons process_block_loop_step[of tg rl line "before @ rest"])
      simp
  with Cons.IH[OF more] show ?case by simp
qed

lemma process_block_loop_first_fails:
  "process_block_loop tg rl [line] u_person u_aff s = Inl e
     \<Longrightarrow> process_block_loop tg rl (line # rest) u_person u_aff s = Inl e"
  by (simp only: process_block_loop_step[of tg rl line rest]) simp

lemma begin_conference_faulty:
  "begin_conference store_faulty conf_three_blocks = Inr ((), store_faulty)"
  by (simp add: begin_conference_def store_faulty_def store_empty_def conf_three_blocks_def)

lemma store_faulty_fields:
  "extraction_type store_faulty = ''gold''" "faulty store_faulty = [InsertOrganization ''NUS'']"
  "session store_faulty = None" "sql_conf_id store_faulty = Some 7"
  "Persons store_faulty = []" "Organizations store_faulty = []"
  "PersonRole store_faulty = []" "PersonOrganization store_faulty = []"
  "executed store_faulty = []"
  by (simp_all add: store_faulty_def store_empty_def)

lemma chair_block_on_faulty:
  "process_blocks stub_tagger store_faulty [(rl_chair, [ln_alice, ln_mit])]
     = Inr ((), store_after_chair)"
  by (simp add: process_block_def eval_defs store_faulty_fields store_after_chair_def)

lemma store_after_chair_fields:
  "extraction_type store_after_chair = ''gold''"
  "faulty store_after_chair = [InsertOrganization ''NUS'']"
  "session store_after_chair = None" "sql_conf_id store_after_chair = Some 7"
  "Persons store_after_chair = [(1, ''Alice'')]"
  "Organizations store_after_chair = [(1, ''MIT'', None)]"
  "PersonRole store_after_chair = [(''PC Chair'', 7, 1)]"
  "PersonOrganization store_after_chair = [(1, 1)]"
  by (simp_all add: store_after_chair_def store_faulty_fields)

lemma bob_pending:
  "process_block_loop stub_tagger rl_organizer [ln_bob] None None store_after_chair
     = Inr ((Some ln_bob, None), store_after_chair)"
  by (simp add: store_after_chair_fields labels)

lemma conference_on_faulty:
  "process_conference stub_tagger store_faulty conf_three_blocks
     = Inl (StoreWriteFailure, store_at_failure)"
proof -
  have blocks: "conference_blocks conf_three_blocks
      = [(rl_chair, [ln_alice, ln_mit]),
         (rl_organizer, [ln_bob, ln_nus, ln_carol, ln_mit]),
         (rl_publicity, [ln_dave, ln_mit])]"
    by (simp add: conf_three_blocks_def)
  have b1: "process_block stub_tagger store_faulty rl_chair [ln_alice, ln_mit]
      = Inr ((), store_after_chair)"
    by (simp add: process_block_def eval_defs store_faulty_fields store_after_chair_def)
  have b2: "process_block stub_tagger store_after_chair rl_organizer
        [ln_bob, ln_nus, ln_carol, ln_mit]
      = Inl (StoreWriteFailure, store_at_failure)"
    by (simp add: process_block_def eval_defs store_after_chair_fields store_at_failure_def)
  show ?thesis
    by (simp add: process_conference_def begin_conference_faulty blocks b1 b2)
qed

lemma nus_line_statements:
  "sql_of (line_actions stub_tagger rl_organizer ln_nus (Some ln_bob) None store_after_chair)
     = [InsertPerson ''Bob'', SelectPersonId ''Bob'', InsertPersonRole ''Organizer'' 7 2,
        InsertOrganization ''NUS'', SelectOrganizationId ''NUS'',
        InsertPersonOrganization 2 2]"
  by (simp add: line_actions_def pair_actions_def fact_actions_def person_actions_def
      organization_actions_def affiliation_actions_def graph_part_def nonempty_def truthy_def
      parts_nus labels texts store_after_chair_fields person_sql_id_def
      organization_sql_id_def next_id_def sql_of_simps)

text \<open>
  C5, as stated: a failing relational write would abort one fact only and processing would
  go on. On the store that fails on inserting the organization \<open>NUS\<close>,
  \<open>process_conference\<close> ends with the failure. Bob and his role are written, the
  affiliation is not; Carol, on the next line of the same block, and Dave, in the block
  after it, are never written.
\<close>

theorem relational_failure_leaves_process_conference:
  "isl (process_conference stub_tagger store_faulty conf_three_blocks)
   \<and> fst (projl (process_conference stub_tagger store_faulty conf_three_blocks))
       = StoreWriteFailure
   \<and> Persons (snd (projl (process_conference stub_tagger store_faulty conf_three_blocks)))
       = [(1, ''Alice''), (2, ''Bob'')]
   \<and> PersonOrganization
        (snd (projl (process_conference stub_tagger store_faulty conf_three_blocks)))
       = [(1, 1)]"
  by (simp add: conference_on_faulty store_at_failure_def store_after_chair_def)

text \<open>
  C5, amended: when a relational write of a fact fails, the failure propagates out of
  \<open>process_block\<close> and \<open>process_conference\<close>. Let the conference have begun, the
  blocks before a block and the lines of that block before a line be processed, the
  conference id be set and the graph session be absent or answering. If one of the
  statements that the line brings about is faulty, then \<open>process_conference\<close> ends in a
  store write failure, whatever lines and blocks follow: they are not processed. The state
  it ends in is the one reached by the writes of the line before the first faulty
  statement, so the statements executed are those before it, and they stay written.
\<close>

theorem relational_failure_aborts_conference:
  assumes "begin_conference s conference = Inr ((), s0)"
    and "conference_blocks conference = pre @ (rl, before @ line # after) # post"
    and "process_blocks tg s0 pre = Inr ((), s1)"
    and "process_block_loop tg rl before None None s1 = Inr ((u_person, u_aff), s2)"
    and "sql_conf_id s2 \<noteq> None" and "graph_ready s2"
    and "\<exists>st \<in> set (sql_of (line_actions tg rl line u_person u_aff s2)). st \<in> set (faulty s2)"
  shows "\<exists>s3. process_conference tg s conference = Inl (StoreWriteFailure, s3)
           \<and> run_actions s2
                (takeWhile (action_ok s2) (line_actions tg rl line u_person u_aff s2))
               = Inr ((), s3)
           \<and> executed s3 = executed s2 @
                takeWhile (\<lambda>st. st \<notin> set (faulty s2))
                  (sql_of (line_actions tg rl line u_person u_aff s2))"
proof -
  let ?acts = "line_actions tg rl line u_person u_aff s2"
  have gok: "graphs_ok s2 ?acts" using assms(6) by (rule graphs_ok_line)
  from assms(7) have "\<not> list_all (\<lambda>st. st \<notin> set (faulty s2)) (sql_of ?acts)"
    by (simp add: list_all_iff)
  then have notall: "\<not> list_all (action_ok s2) ?acts"
    using sql_all_ok[OF gok] by simp
  from run_actions_first_failure[of s2 ?acts] obtain s3 where all3:
    "run_actions s2 (takeWhile (action_ok s2) ?acts) = Inr ((), s3)
     \<and> run_actions s2 ?acts
            = (if list_all (action_ok s2) ?acts then Inr ((), s3)
               else Inl (action_error (hd (dropWhile (action_ok s2) ?acts)), s3))
     \<and> executed s3 = executed s2 @ sql_of (takeWhile (action_ok s2) ?acts)"
    by (rule exE)
  from all3 have before_failure:
    "run_actions s2 (takeWhile (action_ok s2) ?acts) = Inr ((), s3)"
    by (rule conjunct1)
  from all3 have run: "run_actions s2 ?acts
            = (if list_all (action_ok s2) ?acts then Inr ((), s3)
               else Inl (action_error (hd (dropWhile (action_ok s2) ?acts)), s3))"
    by (rule conjunct2[THEN conjunct1])
  from all3 have trace: "executed s3 = executed s2 @ sql_of (takeWhile (action_ok s2) ?acts)"
    by (rule conjunct2[THEN conjunct2])
  have fails: "run_actions s2 ?acts = Inl (StoreWriteFailure, s3)"
    using run notall first_failure_is_sql[OF gok notall] by simp
  have n4j: "session s2 \<noteq> None \<longrightarrow> n4j_conf_id s2 \<noteq> None"
    using assms(6) by (simp add: graph_ready_def split: if_splits)
  have line: "process_block_loop tg rl [line] u_person u_aff s2 = Inl (StoreWriteFailure, s3)"
    using assms(5) n4j fails by (rule line_fails)
  have "process_block_loop tg rl (before @ line # after) None None s1
      = Inl (StoreWriteFailure, s3)"
    using process_block_loop_append[OF assms(4)] process_block_loop_first_fails[OF line]
    by simp
  then have "process_block tg s1 rl (before @ line # after) = Inl (StoreWriteFailure, s3)"
    by (simp add: process_block_def)
  then have "process_blocks tg s0 (pre @ (rl, before @ line # after) # post)
      = Inl (StoreWriteFailure, s3)"
    using process_blocks_append[OF assms(3)] by simp
  with assms(1,2) have "process_conference tg s conference = Inl (StoreWriteFailure, s3)"
    by (simp add: process_conference_def)
  moreover note before_failure
  moreover have "executed s3 = executed s2 @
      takeWhile (\<lambda>st. st \<notin> set (faulty s2)) (sql_of ?acts)"
    using trace by (simp only: sql_prefix[OF gok])
  ultimately show ?thesis by (intro exI[of _ s3] conjI)
qed

theorem relational_failure_aborts_conference_witness:
  "begin_conference store_faulty conf_three_blocks = Inr ((), store_faulty)
   \<and> conference_blocks conf_three_blocks
       = [(rl_chair, [ln_alice, ln_mit])]
         @ (rl_organizer, [ln_bob] @ ln_nus # [ln_carol, ln_mit])
         # [(rl_publicity, [ln_dave, ln_mit])]
   \<and> process_blocks stub_tagger store_faulty [(rl_chair, [ln_alice, ln_mit])]
       = Inr ((), store_after_chair)
   \<and> process_block_loop stub_tagger rl_organizer [ln_bob] None None store_after_chair
       = Inr ((Some ln_bob, None), store_after_chair)
   \<and> sql_conf_id store_after_chair \<noteq> None \<and> graph_ready store_after_chair
   \<and> InsertOrganization ''NUS''
       \<in> set (sql_of (line_actions stub_tagger rl_organizer ln_nus (Some ln_bob) None
                         store_after_chair))
   \<and> InsertOrganization ''NUS'' \<in> set (faulty store_after_chair)
   \<and> process_conference stub_tagger store_faulty conf_three_blocks
       = Inl (StoreWriteFailure, store_at_failure)
   \<and> executed store_at_failure = executed store_after_chair @
        [InsertPerson ''Bob'', SelectPersonId ''Bob'', InsertPersonRole ''Organizer'' 7 2]"
proof -
  have blocks: "conference_blocks conf_three_blocks
       = [(rl_chair, [ln_alice, ln_mit])]
         @ (rl_organizer, [ln_bob] @ ln_nus # [ln_carol, ln_mit])
         # [(rl_publicity, [ln_dave, ln_mit])]"
    by (simp add: conf_three_blocks_def)
  have conf: "sql_conf_id store_after_chair \<noteq> None"
    by (simp add: store_after_chair_fields)
  have graph: "graph_ready store_after_chair"
    by (simp add: graph_ready_def store_after_chair_fields)
  have faulty: "\<exists>st \<in> set (sql_of (line_actions stub_tagger rl_organizer ln_nus (Some ln_bob)
                                     None store_after_chair)).
                  st \<in> set (faulty store_after_chair)"
    by (simp add: nus_line_statements store_after_chair_fields)
  from relational_failure_aborts_conference[OF begin_conference_faulty blocks
      chair_block_on_faulty bob_pending conf graph faulty]
  show ?thesis
    using begin_conference_faulty blocks chair_block_on_faulty bob_pending conf graph
    by (simp add: nus_line_statements store_after_chair_fields conference_on_faulty
        store_at_failure_def)
qed

section \<open>Properties of the API\<close>

subsection \<open>similarity\<close>

lemma editdistance_nonneg: "0 \<le> editdistance xs ys"
  by (induction xs ys rule: editdistance.induct) simp_all

lemma editdistance_refl: "editdistance xs xs = 0"
proof (induction xs)
  case Nil
  show ?case by simp
next
  case (Cons x xs)
  have "0 \<le> editdistance xs (x # xs)" "0 \<le> editdistance (x # xs) xs"
    by (rule editdistance_nonneg)+
  with Cons show ?case by simp
qed

lemma py_split_nonempty: "py_split c s \<noteq> []"
  by (simp add: py_split_def split_where_nonempty)

lemma john_smith_tokens: "py_split 32 (str ''John Smith'') = [str ''John'', str ''Smith'']"
  by (simp add: py_split_def str_def)

lemma smith_john_joined: "str ''Smith'' @ 32 # str ''John'' = str ''Smith John''"
  by (simp add: str_def)

text \<open>
  C8, as stated: the tokens of the first name would be its whitespace tokens. For the first
  name \<open>a\<close>, tab, \<open>b\<close> and the second name \<open>b a\<close>, moving the first whitespace token
  to the end gives \<open>b a\<close> and the distance 0; the code does not split at the tab and
  returns 3.
\<close>

theorem similarity_tab_is_no_separator:
  "similarity lower_ascii [97, 9, 98] [98, 32, 97] = Inr 3
   \<and> str ''b a'' = [98, 32, 97]
   \<and> whitespace_tokens [97, 9, 98] = [[97], [98]]
   \<and> similarity_spec lower_ascii [97, 9, 98] [98, 32, 97] = 0"
  by (simp add: similarity_def similarity_spec_def whitespace_tokens_def is_whitespace_def
      py_split_def lower_ascii_def str_def)

text \<open>
  C8, amended: for all names and for every lowercasing function, \<open>similarity\<close> returns
  the minimum of three edit distances between lowercased strings: the first name against
  the second; the first name with its first token moved to the end against the second; the
  first name with its last token moved to the front against the second. The tokens are the
  pieces of the first name between single space characters, empty pieces kept (tabs and
  other whitespace do not separate), and are joined again with single spaces. The result
  is a non-negative integer, and \<open>similarity("John Smith", "Smith John")\<close> is 0.
\<close>

theorem similarity_is_min_over_space_tokens:
  "similarity lower name1 name2 =
     (let tokens = py_split 32 name1
      in Inr (Min {editdistance (lower name1) (lower name2),
                   editdistance (lower (join [32] (rotate1 tokens))) (lower name2),
                   editdistance (lower (join [32] (last tokens # butlast tokens)))
                     (lower name2)}))
   \<and> (\<exists>d. similarity lower name1 name2 = Inr d \<and> 0 \<le> d)
   \<and> similarity lower (str ''John Smith'') (str ''Smith John'') = Inr 0"
proof -
  obtain t ts where toks: "py_split 32 name1 = t # ts"
    using py_split_nonempty[of 32 name1] by (cases "py_split 32 name1") auto
  have eq: "similarity lower name1 name2 =
      Inr (min (editdistance (lower name1) (lower name2))
            (min (editdistance (lower (join [32] (rotate1 (t # ts)))) (lower name2))
                 (editdistance (lower (join [32] (last (t # ts) # butlast (t # ts))))
                    (lower name2))))"
    by (simp add: similarity_def toks)
  have a: "similarity lower name1 name2 =
     (let tokens = py_split 32 name1
      in Inr (Min {editdistance (lower name1) (lower name2),
                   editdistance (lower (join [32] (rotate1 tokens))) (lower name2),
                   editdistance (lower (join [32] (last tokens # butlast tokens)))
                     (lower name2)}))"
    unfolding eq by (simp add: toks Let_def)
  have b: "\<exists>d. similarity lower name1 name2 = Inr d \<and> 0 \<le> d"
    unfolding eq by (simp add: editdistance_nonneg)
  have c: "similarity lower (str ''John Smith'') (str ''Smith John'') = Inr 0"
    by (simp add: similarity_def john_smith_tokens smith_john_joined editdistance_refl
        editdistance_nonneg min_absorb2 del: editdistance.simps)
  from a b c show ?thesis by blast
qed

subsection \<open>get\_person\_results\<close>

text \<open>
  C10. The result of \<open>get_person_results\<close> does not depend on its arguments \<open>org\<close>
  and \<open>num_to_search\<close>: every provider is asked with the bound 5, and the candidates of
  ORCID, AMiner and Google Scholar follow each other in this order, each tagged with its
  source. Asked for 2 results from providers that have more, it returns five candidates of
  each provider.
\<close>

theorem get_person_results_ignores_org_and_count:
  "get_person_results w name org num_to_search = get_person_results w name org' num_to_search'
   \<and> get_person_results w name org num_to_search =
       (case orcid_person w name 5 of
          Inl e \<Rightarrow> Inl e
        | Inr orcid_results \<Rightarrow>
            (case aminer_person w name 5 of
               Inl e \<Rightarrow> Inl e
             | Inr aminer_results \<Rightarrow>
                 (case gscholar_person w name 5 of
                    Inl e \<Rightarrow> Inl e
                  | Inr gscholar_results \<Rightarrow>
                      Inr (map Person_init
                             (map (Pair ''orcid'') orcid_results @
                              map (Pair ''aminer_id'') aminer_results @
                              map (Pair ''gscholar_id'') gscholar_results)))))
   \<and> map person_type (projr (get_person_results providers_many ''Ann Lee'' ''NUS'' 2))
       = replicate 5 ''orcid'' @ replicate 5 ''aminer_id'' @ replicate 5 ''gscholar_id''"
proof -
  have five: "nat 5 = Suc (Suc (Suc (Suc (Suc 0))))" by simp
  have "orcid_person providers_many ''Ann Lee'' 5
      = Inr (replicate 5 (''0000-0001'', ''Ann Lee'', [], []))"
    by (simp add: orcid_person_def providers_many_def five numeral_eq_Suc)
  moreover have "aminer_person providers_many ''Ann Lee'' 5
      = Inr (replicate 5 (''a1'', ''Ann Lee'', [''Not Available''], []))"
    by (simp add: aminer_person_def providers_many_def slice_to_def five numeral_eq_Suc)
  moreover have "gscholar_person providers_many ''Ann Lee'' 5
      = Inr (replicate 5 (''g1'', ''Ann Lee'', [''NUS''], []))"
    by (simp add: gscholar_person_def providers_many_def numeral_eq_Suc)
  ultimately show ?thesis
    by (simp add: get_person_results_def Person_init_def comp_def)
qed

end
